theory Spec2Isabelle
  imports Complex_Main
begin

section \<open>Python exceptions\<close>

text \<open>
  The exceptions that the modelled code can raise.  \<open>Exception msg\<close> is a plain
  \<^verbatim>\<open>Exception\<close> whose \<^verbatim>\<open>str(e)\<close> is \<open>msg\<close>.
\<close>

datatype py_error =
  ZeroDivisionError | OverflowError | KeyError | ValueError | UnboundLocalError | Exception string

section \<open>Rate limiter (src/utils/rate\_limiter.py)\<close>

text \<open>
  Time stamps (\<^verbatim>\<open>time.time()\<close>) and the token count are Python floats; they are
  modelled as exact rationals, so rounding is not part of the model.  Every reading of the
  clock is an explicit argument of the function that reads it.
\<close>

text \<open>
  The float power \<^verbatim>\<open>x ** n\<close> with an integer exponent.  Python raises
  \<^verbatim>\<open>OverflowError\<close> when the result is too large for a double, that is, when it would
  round to infinity: from \<open>2 ^ 1024 - 2 ^ 970\<close> on in magnitude.  Below that the exact
  power stands for the rounded one.
\<close>

definition float_pow :: "rat \<Rightarrow> nat \<Rightarrow> py_error + rat" where
  "float_pow x n = (if 2 ^ 1024 - 2 ^ 970 \<le> \<bar>x ^ n\<bar> then Inl OverflowError else Inr (x ^ n))"

record RateLimitConfig =
  requests_per_minute :: int
  requests_per_hour :: int
  burst_limit :: int
  cooldown_seconds :: rat
  backoff_multiplier :: rat
  max_backoff_seconds :: rat

record RateLimiter =
  config :: RateLimitConfig
  tokens :: rat
  last_refill :: rat
  request_times :: "rat list"
  consecutive_failures :: nat
  last_failure_time :: rat
  refill_rate :: rat

text \<open>\<^verbatim>\<open>RateLimitConfig()\<close> with the dataclass defaults.\<close>

definition RateLimitConfig_default :: RateLimitConfig where
  "RateLimitConfig_default =
     \<lparr>requests_per_minute = 30, requests_per_hour = 1000, burst_limit = 5,
      cooldown_seconds = 1, backoff_multiplier = 2, max_backoff_seconds = 300\<rparr>"

text \<open>\<^verbatim>\<open>RateLimiter.__init__\<close>; \<open>now\<close> is the clock reading stored in \<open>last_refill\<close>.\<close>

definition RateLimiter_init :: "RateLimitConfig \<Rightarrow> rat \<Rightarrow> RateLimiter" where
  "RateLimiter_init cfg now =
     \<lparr>config = cfg,
      tokens = of_int (burst_limit cfg),
      last_refill = now,
      request_times = [],
      consecutive_failures = 0,
      last_failure_time = 0,
      refill_rate = of_int (requests_per_minute cfg) / 60\<rparr>"

definition refill_tokens :: "RateLimiter \<Rightarrow> rat \<Rightarrow> RateLimiter" where
  "refill_tokens l current_time =
     (let time_elapsed = current_time - last_refill l;
          tokens_to_add = time_elapsed * refill_rate l
      in l\<lparr>tokens := min (of_int (burst_limit (config l))) (tokens l + tokens_to_add),
            last_refill := current_time\<rparr>)"

text \<open>
  The loop \<^verbatim>\<open>while self.request_times and self.request_times[0] < cutoff_time: popleft()\<close>.
\<close>

fun popleft_older :: "rat \<Rightarrow> rat list \<Rightarrow> rat list" where
  "popleft_older cutoff_time [] = []"
| "popleft_older cutoff_time (t # ts) =
     (if t < cutoff_time then popleft_older cutoff_time ts else t # ts)"

definition check_hourly_limit :: "RateLimiter \<Rightarrow> rat \<Rightarrow> bool \<times> RateLimiter" where
  "check_hourly_limit l current_time =
     (let cutoff_time = current_time - 3600;
          l' = l\<lparr>request_times := popleft_older cutoff_time (request_times l)\<rparr>
      in (int (length (request_times l')) < requests_per_hour (config l'), l'))"

text \<open>
  \<^verbatim>\<open>_get_backoff_time\<close>: the power is computed before \<^verbatim>\<open>min\<close> caps the product, so its
  overflow is raised to the caller.
\<close>

definition get_backoff_time :: "RateLimiter \<Rightarrow> py_error + rat" where
  "get_backoff_time l =
     (case float_pow (backoff_multiplier (config l)) (consecutive_failures l) of
        Inl e \<Rightarrow> Inl e
      | Inr p \<Rightarrow> Inr (min (cooldown_seconds (config l) * p) (max_backoff_seconds (config l))))"

definition is_in_backoff :: "RateLimiter \<Rightarrow> rat \<Rightarrow> py_error + bool" where
  "is_in_backoff l current_time =
     (if consecutive_failures l = 0 then Inr False
      else (case get_backoff_time l of
              Inl e \<Rightarrow> Inl e
            | Inr backoff_time \<Rightarrow> Inr (current_time - last_failure_time l < backoff_time)))"

text \<open>
  The part of \<^verbatim>\<open>RateLimiter.acquire\<close> that follows the backoff check.
  \<^verbatim>\<open>1.0 / self.refill_rate\<close> raises when the refill rate is zero.
\<close>

definition acquire_token :: "RateLimiter \<Rightarrow> rat \<Rightarrow> (py_error + bool) \<times> rat list \<times> RateLimiter" where
  "acquire_token l current_time =
     (let l1 = refill_tokens l current_time;
          ok = fst (check_hourly_limit l1 current_time);
          l2 = snd (check_hourly_limit l1 current_time)
      in if \<not> ok then (Inr False, [], l2)
         else if 1 \<le> tokens l2 then
           (Inr True,
            (if 0 < cooldown_seconds (config l2) then [cooldown_seconds (config l2)] else []),
            l2\<lparr>tokens := tokens l2 - 1, request_times := request_times l2 @ [current_time]\<rparr>)
         else if refill_rate l2 = 0 then (Inl ZeroDivisionError, [], l2)
         else (Inr False, [1 / refill_rate l2], l2))"

text \<open>
  \<^verbatim>\<open>RateLimiter.acquire\<close>.  The result is the returned boolean (or the exception
  raised), the list of \<^verbatim>\<open>asyncio.sleep\<close> durations awaited, and the limiter after the
  call.  An overflow in the backoff check is raised before anything is changed.
\<close>

definition acquire :: "RateLimiter \<Rightarrow> rat \<Rightarrow> (py_error + bool) \<times> rat list \<times> RateLimiter" where
  "acquire l current_time =
     (case is_in_backoff l current_time of
        Inl e \<Rightarrow> (Inl e, [], l)
      | Inr True \<Rightarrow>
          (case get_backoff_time l of
             Inl e \<Rightarrow> (Inl e, [], l)
           | Inr backoff_time \<Rightarrow> (Inr False, [backoff_time], l))
      | Inr False \<Rightarrow> acquire_token l current_time)"

definition record_success :: "RateLimiter \<Rightarrow> RateLimiter" where
  "record_success l = l\<lparr>consecutive_failures := 0\<rparr>"

text \<open>\<^verbatim>\<open>record_failure\<close>; \<open>now\<close> is its reading of the clock.\<close>

definition record_failure :: "RateLimiter \<Rightarrow> rat \<Rightarrow> RateLimiter" where
  "record_failure l now =
     l\<lparr>consecutive_failures := consecutive_failures l + 1, last_failure_time := now\<rparr>"

text \<open>Python's \<^verbatim>\<open>int(x)\<close> on a float truncates towards zero.\<close>

definition py_int :: "rat \<Rightarrow> int" where
  "py_int x = (if 0 \<le> x then \<lfloor>x\<rfloor> else \<lceil>x\<rceil>)"

record limiter_status =
  available_tokens :: int
  max_tokens :: int
  requests_last_hour :: nat
  hourly_limit :: int
  status_consecutive_failures :: nat
  in_backoff :: bool
  backoff_time_remaining :: rat

text \<open>
  \<^verbatim>\<open>get_status\<close> refills first and then builds the dictionary, whose entries
  \<^verbatim>\<open>in_backoff\<close> and \<^verbatim>\<open>backoff_time_remaining\<close> compute the backoff time and raise its
  overflow, with the refill already made.
\<close>

definition get_status :: "RateLimiter \<Rightarrow> rat \<Rightarrow> (py_error + limiter_status) \<times> RateLimiter" where
  "get_status l current_time =
     (let l1 = refill_tokens l current_time
      in (case is_in_backoff l1 current_time of
            Inl e \<Rightarrow> (Inl e, l1)
          | Inr b \<Rightarrow>
              (case (if 0 < consecutive_failures l1
                     then (case get_backoff_time l1 of
                             Inl e \<Rightarrow> Inl e
                           | Inr backoff_time \<Rightarrow>
                               Inr (max 0 (backoff_time - (current_time - last_failure_time l1))))
                     else Inr 0) of
                 Inl e \<Rightarrow> (Inl e, l1)
               | Inr remaining \<Rightarrow>
                   (Inr \<lparr>available_tokens = py_int (tokens l1),
                         max_tokens = burst_limit (config l1),
                         requests_last_hour = length (request_times l1),
                         hourly_limit = requests_per_hour (config l1),
                         status_consecutive_failures = consecutive_failures l1,
                         in_backoff = b,
                         backoff_time_remaining = remaining\<rparr>, l1))))"

subsection \<open>Sequences of operations on one limiter\<close>

text \<open>
  A caller's use of one limiter is a list of operations, each paired with the clock
  reading it makes.  An \<open>Acquire\<close> that raises leaves the limiter as it was when the
  exception was raised; the object stays usable.
\<close>

datatype limiter_op = Acquire | RecordSuccess | RecordFailure | GetStatus

fun apply_op :: "RateLimiter \<Rightarrow> limiter_op \<times> rat \<Rightarrow> RateLimiter" where
  "apply_op l (Acquire, now) = snd (snd (acquire l now))"
| "apply_op l (RecordSuccess, now) = record_success l"
| "apply_op l (RecordFailure, now) = record_failure l now"
| "apply_op l (GetStatus, now) = snd (get_status l now)"

fun run_ops :: "RateLimiter \<Rightarrow> (limiter_op \<times> rat) list \<Rightarrow> RateLimiter" where
  "run_ops l [] = l"
| "run_ops l (x # xs) = run_ops (apply_op l x) xs"

text \<open>The clock readings at which an \<open>Acquire\<close> of the sequence returned \<^verbatim>\<open>True\<close>.\<close>

fun admitted_times :: "RateLimiter \<Rightarrow> (limiter_op \<times> rat) list \<Rightarrow> rat list" where
  "admitted_times l [] = []"
| "admitted_times l (x # xs) =
     (if fst x = Acquire \<and> fst (acquire l (snd x)) = Inr True
      then snd x # admitted_times (apply_op l x) xs
      else admitted_times (apply_op l x) xs)"

subsection \<open>The per-service registry and the wrappers\<close>

record GlobalRateLimiter =
  limiters :: "string \<rightharpoonup> RateLimiter"
  default_configs :: "string \<rightharpoonup> RateLimitConfig"

definition GlobalRateLimiter_init :: GlobalRateLimiter where
  "GlobalRateLimiter_init =
     \<lparr>limiters = Map.empty,
      default_configs = map_of
        [(''linkedin'', RateLimitConfig_default\<lparr>requests_per_minute := 10, requests_per_hour := 200, cooldown_seconds := 2\<rparr>),
         (''openrouter'', RateLimitConfig_default\<lparr>requests_per_minute := 60, requests_per_hour := 3000, cooldown_seconds := 1 / 2\<rparr>),
         (''hunter_io'', RateLimitConfig_default\<lparr>requests_per_minute := 30, requests_per_hour := 1000, cooldown_seconds := 1\<rparr>),
         (''apollo_io'', RateLimitConfig_default\<lparr>requests_per_minute := 20, requests_per_hour := 500, cooldown_seconds := 3 / 2\<rparr>),
         (''ollama'', RateLimitConfig_default\<lparr>requests_per_minute := 120, requests_per_hour := 5000, cooldown_seconds := 1 / 10\<rparr>),
         (''default'', RateLimitConfig_default)]\<rparr>"

text \<open>
  \<^verbatim>\<open>get_limiter\<close>: the limiter is created on first use, at clock reading \<open>t_create\<close>.
  \<^verbatim>\<open>self.default_configs.get(service, self.default_configs["default"])\<close> evaluates the
  default first, so a registry without a \<^verbatim>\<open>"default"\<close> entry raises \<^verbatim>\<open>KeyError\<close>.
\<close>

definition get_limiter ::
  "GlobalRateLimiter \<Rightarrow> string \<Rightarrow> rat \<Rightarrow> py_error + (RateLimiter \<times> GlobalRateLimiter)" where
  "get_limiter g service t_create =
     (case limiters g service of
        Some l \<Rightarrow> Inr (l, g)
      | None \<Rightarrow>
          (case default_configs g ''default'' of
             None \<Rightarrow> Inl KeyError
           | Some dflt \<Rightarrow>
               let cfg = (case default_configs g service of Some c \<Rightarrow> c | None \<Rightarrow> dflt);
                   l = RateLimiter_init cfg t_create
               in Inr (l, g\<lparr>limiters := (limiters g)(service \<mapsto> l)\<rparr>)))"

definition global_acquire ::
  "GlobalRateLimiter \<Rightarrow> string \<Rightarrow> rat \<Rightarrow> rat \<Rightarrow> (py_error + bool) \<times> rat list \<times> GlobalRateLimiter" where
  "global_acquire g service t_create t_acquire =
     (case get_limiter g service t_create of
        Inl e \<Rightarrow> (Inl e, [], g)
      | Inr (l, g1) \<Rightarrow>
          (case acquire l t_acquire of
             (r, slept, l') \<Rightarrow> (r, slept, g1\<lparr>limiters := (limiters g1)(service \<mapsto> l')\<rparr>)))"

definition global_record_success :: "GlobalRateLimiter \<Rightarrow> string \<Rightarrow> GlobalRateLimiter" where
  "global_record_success g service =
     (case limiters g service of
        Some l \<Rightarrow> g\<lparr>limiters := (limiters g)(service \<mapsto> record_success l)\<rparr>
      | None \<Rightarrow> g)"

definition global_record_failure :: "GlobalRateLimiter \<Rightarrow> string \<Rightarrow> rat \<Rightarrow> GlobalRateLimiter" where
  "global_record_failure g service now =
     (case limiters g service of
        Some l \<Rightarrow> g\<lparr>limiters := (limiters g)(service \<mapsto> record_failure l now)\<rparr>
      | None \<Rightarrow> g)"

text \<open>
  \<^verbatim>\<open>with_rate_limit(service, func, *args)\<close>.  The wrapped callable acts on the rest of
  the world \<open>'w\<close>: applied to it, it returns a value (\<open>None\<close> is Python's
  \<^verbatim>\<open>None\<close>) or raises, and leaves a new world.  The result is what the wrapper returns
  or raises, the sleeps awaited, the registry and the world afterwards.  \<open>t_failure\<close> is
  the clock reading of \<^verbatim>\<open>record_failure\<close>.
\<close>

definition with_rate_limit ::
  "GlobalRateLimiter \<Rightarrow> string \<Rightarrow> ('w \<Rightarrow> (py_error + 'a option) \<times> 'w) \<Rightarrow> 'w \<Rightarrow> rat \<Rightarrow> rat \<Rightarrow> rat
     \<Rightarrow> (py_error + 'a option) \<times> rat list \<times> GlobalRateLimiter \<times> 'w" where
  "with_rate_limit g service func w t_create t_acquire t_failure =
     (case global_acquire g service t_create t_acquire of
        (Inl e, slept, g1) \<Rightarrow> (Inl e, slept, g1, w)
      | (Inr False, slept, g1) \<Rightarrow> (Inr None, slept, g1, w)
      | (Inr True, slept, g1) \<Rightarrow>
          (case func w of
             (Inr result, w') \<Rightarrow> (Inr result, slept, global_record_success g1 service, w')
           | (Inl e, w') \<Rightarrow> (Inl e, slept, global_record_failure g1 service t_failure, w')))"

text \<open>
  The wrapper built by the decorator \<^verbatim>\<open>rate_limited(service)(func)\<close>, called once.
\<close>

definition rate_limited ::
  "string \<Rightarrow> ('w \<Rightarrow> (py_error + 'a option) \<times> 'w) \<Rightarrow> GlobalRateLimiter \<Rightarrow> 'w \<Rightarrow> rat \<Rightarrow> rat \<Rightarrow> rat
     \<Rightarrow> (py_error + 'a option) \<times> rat list \<times> GlobalRateLimiter \<times> 'w" where
  "rate_limited service func g w t_create t_acquire t_failure =
     (case global_acquire g service t_create t_acquire of
        (Inl e, slept, g1) \<Rightarrow> (Inl e, slept, g1, w)
      | (Inr False, slept, g1) \<Rightarrow> (Inr None, slept, g1, w)
      | (Inr True, slept, g1) \<Rightarrow>
          (case func w of
             (Inr result, w') \<Rightarrow> (Inr result, slept, global_record_success g1 service, w')
           | (Inl e, w') \<Rightarrow> (Inl e, slept, global_record_failure g1 service t_failure, w')))"

section \<open>Workflow orchestrator (src/workflow\_orchestrator.py)\<close>

subsection \<open>Data model\<close>

datatype ProcessingStatus = PENDING | IN_PROGRESS | COMPLETED | FAILED | SKIPPED

text \<open>
  \<^verbatim>\<open>WorkflowStep\<close>.  The time stamps and the \<^verbatim>\<open>result_data\<close> summary are written
  but never read by the orchestrator and are left out.
\<close>

record WorkflowStep =
  name :: string
  status :: ProcessingStatus
  error_message :: "string option"

text \<open>
  The artifacts handed between stages are opaque to the orchestrator, which only tests
  them for \<^verbatim>\<open>None\<close>; of a contact search result it reads the contact list.
\<close>

type_synonym FilterCriteria = string
type_synonym CustomizationResult = string
type_synonym Contact = string
type_synonym GeneratedEmail = string
type_synonym DocumentPackage = string

record ContactSearchResult =
  contacts :: "Contact list"

datatype FilterDecision = ACCEPT | REJECT | MAYBE

fun decision_value :: "FilterDecision \<Rightarrow> string" where
  "decision_value ACCEPT = ''accept''"
| "decision_value REJECT = ''reject''"
| "decision_value MAYBE = ''maybe''"

text \<open>
  \<^verbatim>\<open>steps: Dict[str, WorkflowStep]\<close> is an insertion-ordered dictionary: an association
  list in which assignment replaces the value of a present key and appends a new one.
\<close>

fun dict_set :: "('k \<times> 'v) list \<Rightarrow> 'k \<Rightarrow> 'v \<Rightarrow> ('k \<times> 'v) list" where
  "dict_set [] k v = [(k, v)]"
| "dict_set ((k', v') # kvs) k v =
     (if k' = k then (k, v) # kvs else (k', v') # dict_set kvs k v)"

record JobProcessingResult =
  job_id :: int
  job_title :: string
  company_name :: string
  overall_status :: ProcessingStatus
  steps :: "(string \<times> WorkflowStep) list"
  filter_result :: "string option"
  customization_result :: "CustomizationResult option"
  contact_result :: "ContactSearchResult option"
  email_results :: "GeneratedEmail list"
  document_package :: "DocumentPackage option"

record BatchProcessingRequest =
  job_ids :: "int list"
  enable_filtering :: bool
  enable_resume_customization :: bool
  enable_contact_finding :: bool
  enable_email_generation :: bool
  enable_document_generation :: bool
  filter_criteria :: "FilterCriteria option"
  email_template :: string
  document_formats :: "string list"
  max_concurrent_jobs :: int

text \<open>
  \<^verbatim>\<open>BatchProcessingResult\<close>; its \<^verbatim>\<open>overall_status\<close> field is named
  \<open>batch_overall_status\<close> here.  The class has no counter of skipped jobs.
\<close>

record BatchProcessingResult =
  total_jobs :: nat
  successful_jobs :: nat
  failed_jobs :: nat
  job_results :: "(int \<times> JobProcessingResult) list"
  batch_overall_status :: ProcessingStatus

subsection \<open>What the collaborators answer\<close>

text \<open>
  A call to a collaborator returns a value or raises an exception \<open>e\<close>, of which the
  orchestrator keeps \<^verbatim>\<open>str(e)\<close>.  Calls are assumed to come back.
\<close>

datatype 'a call = Returns 'a | Raises string

record job_data =
  title :: string
  company :: string

text \<open>
  What the database does in \<^verbatim>\<open>_get_job_data\<close>: \<^verbatim>\<open>get_connection()\<close> fails, the query
  fails, no row matches, or the row of the job comes back.
\<close>

datatype jobs_query = ConnectFails | QueryFails | NoRow | Row job_data

text \<open>
  \<^verbatim>\<open>_get_job_data\<close>.  Every exception of the \<^verbatim>\<open>try\<close> block is logged and answered with
  \<^verbatim>\<open>None\<close>; the \<^verbatim>\<open>finally\<close> block then reads \<^verbatim>\<open>conn\<close>, which is unbound when
  \<^verbatim>\<open>get_connection()\<close> itself failed.
\<close>

fun get_job_data :: "jobs_query \<Rightarrow> py_error + job_data option" where
  "get_job_data ConnectFails = Inl UnboundLocalError"
| "get_job_data QueryFails = Inr None"
| "get_job_data NoRow = Inr None"
| "get_job_data (Row d) = Inr (Some d)"

text \<open>The world as one job's pipeline meets it.\<close>

record job_env =
  jobs_row :: jobs_query
  get_existing_filter_result :: "string option call"
  load_default_filter_criteria :: "FilterCriteria call"
  filter_jobs_batch :: "FilterCriteria \<Rightarrow> FilterDecision list call"
  get_customization_for_job :: "CustomizationResult option call"
  customize_resume_for_job :: "CustomizationResult option call"
  find_contacts_for_company :: "ContactSearchResult call"
  generate_email :: "Contact \<Rightarrow> CustomizationResult option \<Rightarrow> GeneratedEmail option call"
  generate_documents_for_job :: "CustomizationResult \<Rightarrow> DocumentPackage option call"

text \<open>The calls a pipeline makes, in order, with the arguments that matter.\<close>

datatype collaborator_call =
    GetExistingFilterResult
  | LoadDefaultFilterCriteria
  | FilterJobsBatch FilterCriteria
  | GetCustomizationForJob
  | CustomizeResumeForJob
  | FindContactsForCompany
  | GenerateEmail Contact "CustomizationResult option"
  | GenerateDocumentsForJob CustomizationResult

type_synonym stage_result = "string option \<times> JobProcessingResult \<times> collaborator_call list"

subsection \<open>The stages\<close>

text \<open>
  A stage takes the job result and the calls made so far and gives the job result and the
  calls as it leaves them, with the exception that leaves it, if any.  Every stage stores
  its step record first and catches every exception of what follows, so none leaves it: the
  first component is \<open>None\<close> throughout, and it is there for the \<^verbatim>\<open>try\<close> block around
  the stages.  The step object is shared between the stage and the \<^verbatim>\<open>steps\<close> dictionary,
  so an assignment to one of its fields is an update of the dictionary entry.
\<close>

definition start_step :: "JobProcessingResult \<Rightarrow> string \<Rightarrow> JobProcessingResult" where
  "start_step jr n =
     jr\<lparr>steps := dict_set (steps jr) n \<lparr>name = n, status = IN_PROGRESS, error_message = None\<rparr>\<rparr>"

definition complete_step :: "JobProcessingResult \<Rightarrow> string \<Rightarrow> JobProcessingResult" where
  "complete_step jr n =
     jr\<lparr>steps := dict_set (steps jr) n \<lparr>name = n, status = COMPLETED, error_message = None\<rparr>\<rparr>"

definition fail_step :: "JobProcessingResult \<Rightarrow> string \<Rightarrow> string \<Rightarrow> JobProcessingResult" where
  "fail_step jr n msg =
     jr\<lparr>steps := dict_set (steps jr) n \<lparr>name = n, status = FAILED, error_message = Some msg\<rparr>\<rparr>"

definition execute_filtering_step ::
  "job_env \<Rightarrow> FilterCriteria option \<Rightarrow> JobProcessingResult \<Rightarrow> collaborator_call list \<Rightarrow> stage_result" where
  "execute_filtering_step env criteria jr cs =
     (let jr1 = start_step jr ''filtering'';
              cs1 = cs @ [GetExistingFilterResult]
          in (case get_existing_filter_result env of
               Raises msg \<Rightarrow> (None, fail_step jr1 ''filtering'' msg, cs1)
             | Returns existing_filter \<Rightarrow>
                 if existing_filter \<noteq> None \<and> existing_filter \<noteq> Some []
                 then (None, complete_step (jr1\<lparr>filter_result := existing_filter\<rparr>) ''filtering'', cs1)
                 else
                   (case (case criteria of
                            Some c \<Rightarrow> (Returns c, cs1)
                          | None \<Rightarrow> (load_default_filter_criteria env, cs1 @ [LoadDefaultFilterCriteria])) of
                      (Raises msg, cs2) \<Rightarrow> (None, fail_step jr1 ''filtering'' msg, cs2)
                    | (Returns c, cs2) \<Rightarrow>
                        (case filter_jobs_batch env c of
                           Raises msg \<Rightarrow> (None, fail_step jr1 ''filtering'' msg, cs2 @ [FilterJobsBatch c])
                         | Returns [] \<Rightarrow>
                             (None, fail_step jr1 ''filtering'' ''No filter result returned'',
                              cs2 @ [FilterJobsBatch c])
                         | Returns (d # _) \<Rightarrow>
                             (None,
                              complete_step (jr1\<lparr>filter_result := Some (decision_value d)\<rparr>) ''filtering'',
                              cs2 @ [FilterJobsBatch c])))))"

definition execute_resume_customization_step ::
  "job_env \<Rightarrow> JobProcessingResult \<Rightarrow> collaborator_call list \<Rightarrow> stage_result" where
  "execute_resume_customization_step env jr cs =
     (let jr1 = start_step jr ''resume_customization'';
              cs1 = cs @ [GetCustomizationForJob]
          in (case get_customization_for_job env of
               Raises msg \<Rightarrow> (None, fail_step jr1 ''resume_customization'' msg, cs1)
             | Returns (Some existing_customization) \<Rightarrow>
                 (None,
                  complete_step (jr1\<lparr>customization_result := Some existing_customization\<rparr>)
                    ''resume_customization'', cs1)
             | Returns None \<Rightarrow>
                 (case customize_resume_for_job env of
                    Raises msg \<Rightarrow>
                      (None, fail_step jr1 ''resume_customization'' msg, cs1 @ [CustomizeResumeForJob])
                  | Returns (Some c) \<Rightarrow>
                      (None,
                       complete_step (jr1\<lparr>customization_result := Some c\<rparr>) ''resume_customization'',
                       cs1 @ [CustomizeResumeForJob])
                  | Returns None \<Rightarrow>
                      (None, fail_step jr1 ''resume_customization'' ''Resume customization failed'',
                       cs1 @ [CustomizeResumeForJob]))))"

definition execute_contact_finding_step ::
  "job_env \<Rightarrow> JobProcessingResult \<Rightarrow> collaborator_call list \<Rightarrow> stage_result" where
  "execute_contact_finding_step env jr cs =
     (let jr1 = start_step jr ''contact_finding'';
              cs1 = cs @ [FindContactsForCompany]
          in (case find_contacts_for_company env of
               Raises msg \<Rightarrow> (None, fail_step jr1 ''contact_finding'' msg, cs1)
             | Returns found \<Rightarrow>
                 (None, complete_step (jr1\<lparr>contact_result := Some found\<rparr>) ''contact_finding'', cs1)))"

text \<open>
  The loop over the top contacts: an email that comes back as \<^verbatim>\<open>None\<close> is dropped, an
  exception leaves the loop with the emails appended so far.
\<close>

fun generate_emails ::
  "job_env \<Rightarrow> CustomizationResult option \<Rightarrow> Contact list \<Rightarrow> GeneratedEmail list \<Rightarrow> collaborator_call list
     \<Rightarrow> string option \<times> GeneratedEmail list \<times> collaborator_call list" where
  "generate_emails env cust [] emails cs = (None, emails, cs)"
| "generate_emails env cust (c # rest) emails cs =
     (case generate_email env c cust of
        Raises msg \<Rightarrow> (Some msg, emails, cs @ [GenerateEmail c cust])
      | Returns None \<Rightarrow> generate_emails env cust rest emails (cs @ [GenerateEmail c cust])
      | Returns (Some e) \<Rightarrow> generate_emails env cust rest (emails @ [e]) (cs @ [GenerateEmail c cust]))"

definition execute_email_generation_step ::
  "job_env \<Rightarrow> JobProcessingResult \<Rightarrow> collaborator_call list \<Rightarrow> stage_result" where
  "execute_email_generation_step env jr cs =
     (let jr1 = start_step jr ''email_generation''
          in if contact_result jr1 = None \<or> contacts (the (contact_result jr1)) = []
             then (None, fail_step jr1 ''email_generation'' ''No contacts available for email generation'', cs)
             else
               let top_contacts = take 3 (contacts (the (contact_result jr1)))
               in (case generate_emails env (customization_result jr1) top_contacts (email_results jr1) cs of
                    (raised, emails, cs1) \<Rightarrow>
                      let jr2 = jr1\<lparr>email_results := emails\<rparr>
                      in (case raised of
                           Some msg \<Rightarrow> (None, fail_step jr2 ''email_generation'' msg, cs1)
                         | None \<Rightarrow>
                             if emails \<noteq> []
                             then (None, complete_step jr2 ''email_generation'', cs1)
                             else (None, fail_step jr2 ''email_generation'' ''No emails were generated'', cs1))))"

definition execute_document_generation_step ::
  "job_env \<Rightarrow> JobProcessingResult \<Rightarrow> collaborator_call list \<Rightarrow> stage_result" where
  "execute_document_generation_step env jr cs =
     (let jr1 = start_step jr ''document_generation''
          in (case customization_result jr1 of
               None \<Rightarrow>
                 (None,
                  fail_step jr1 ''document_generation''
                    ''No customized resume available for document generation'', cs)
             | Some c \<Rightarrow>
                 (case generate_documents_for_job env c of
                    Raises msg \<Rightarrow>
                      (None, fail_step jr1 ''document_generation'' msg, cs @ [GenerateDocumentsForJob c])
                  | Returns (Some package) \<Rightarrow>
                      (None, complete_step (jr1\<lparr>document_package := Some package\<rparr>) ''document_generation'',
                       cs @ [GenerateDocumentsForJob c])
                  | Returns None \<Rightarrow>
                      (None, fail_step jr1 ''document_generation'' ''Document generation failed'',
                       cs @ [GenerateDocumentsForJob c]))))"

subsection \<open>The per-job pipeline\<close>

text \<open>
  \<open>then_stage r enabled stage\<close>: after what came before (\<open>r\<close>), an exception that already
  escaped stays; otherwise the stage runs if it is enabled.
\<close>

definition then_stage ::
  "stage_result \<Rightarrow> bool \<Rightarrow> (JobProcessingResult \<Rightarrow> collaborator_call list \<Rightarrow> stage_result) \<Rightarrow> stage_result" where
  "then_stage r enabled stage =
     (case r of
        (Some msg, jr, cs) \<Rightarrow> (Some msg, jr, cs)
      | (None, jr, cs) \<Rightarrow> (if enabled then stage jr cs else (None, jr, cs)))"

definition failed_steps :: "JobProcessingResult \<Rightarrow> WorkflowStep list" where
  "failed_steps jr = filter (\<lambda>step. status step = FAILED) (map snd (steps jr))"

text \<open>
  The body of the \<^verbatim>\<open>try\<close> block of \<^verbatim>\<open>_process_single_job\<close>: the result is the job
  result it returns, or the exception that leaves the block with the job result as
  mutated so far.
\<close>

definition pipeline_body :: "job_env \<Rightarrow> BatchProcessingRequest \<Rightarrow> JobProcessingResult \<Rightarrow> stage_result" where
  "pipeline_body env request job_result =
     (case then_stage (None, job_result, []) (enable_filtering request)
             (execute_filtering_step env (filter_criteria request)) of
        (Some msg, jr, cs) \<Rightarrow> (Some msg, jr, cs)
      | (None, jr1, cs1) \<Rightarrow>
          (if enable_filtering request \<and> filter_result jr1 = Some ''reject''
           then (None, jr1\<lparr>overall_status := SKIPPED\<rparr>, cs1)
           else
             (case then_stage
                     (then_stage
                        (then_stage
                           (then_stage (None, jr1, cs1) (enable_resume_customization request)
                              (execute_resume_customization_step env))
                           (enable_contact_finding request) (execute_contact_finding_step env))
                        (enable_email_generation request) (execute_email_generation_step env))
                     (enable_document_generation request) (execute_document_generation_step env) of
                (Some msg, jr, cs) \<Rightarrow> (Some msg, jr, cs)
              | (None, jr5, cs5) \<Rightarrow>
                  (None,
                   jr5\<lparr>overall_status := (if failed_steps jr5 \<noteq> [] then FAILED else COMPLETED)\<rparr>,
                   cs5))))"

text \<open>
  The constructor \<^verbatim>\<open>JobProcessingResult(job_id, job_title, company_name, overall_status, steps)\<close>
  with the defaults of the dataclass for the other fields.
\<close>

definition JobProcessingResult_init ::
  "int \<Rightarrow> string \<Rightarrow> string \<Rightarrow> ProcessingStatus \<Rightarrow> (string \<times> WorkflowStep) list \<Rightarrow> JobProcessingResult" where
  "JobProcessingResult_init jid t c st ss =
     \<lparr>job_id = jid, job_title = t, company_name = c, overall_status = st, steps = ss,
      filter_result = None, customization_result = None, contact_result = None,
      email_results = [], document_package = None\<rparr>"

text \<open>
  \<^verbatim>\<open>_process_single_job\<close>: the job result it returns with the calls it made, or the
  exception it raises.  \<^verbatim>\<open>_get_job_data\<close> is called before the \<^verbatim>\<open>try\<close> block.
\<close>

definition process_single_job ::
  "job_env \<Rightarrow> BatchProcessingRequest \<Rightarrow> int \<Rightarrow> py_error + (JobProcessingResult \<times> collaborator_call list)" where
  "process_single_job env request jid =
     (case get_job_data (jobs_row env) of
        Inl e \<Rightarrow> Inl e
      | Inr None \<Rightarrow>
          Inr (JobProcessingResult_init jid ''Unknown'' ''Unknown'' FAILED
                 [(''data_loading'',
                   \<lparr>name = ''data_loading'', status = FAILED, error_message = Some ''Job not found''\<rparr>)],
               [])
      | Inr (Some d) \<Rightarrow>
          (case pipeline_body env request
                  (JobProcessingResult_init jid (title d) (company d) IN_PROGRESS []) of
             (None, jr, cs) \<Rightarrow> Inr (jr, cs)
           | (Some msg, jr, cs) \<Rightarrow>
               Inr (jr\<lparr>overall_status := FAILED,
                       steps := (if steps jr = []
                                 then dict_set (steps jr) ''general_error''
                                        \<lparr>name = ''general_error'', status = FAILED, error_message = Some msg\<rparr>
                                 else steps jr)\<rparr>, cs)))"

subsection \<open>The batch\<close>

text \<open>
  What a coroutine does for its caller: it never comes back, it raises, or it returns.
\<close>

datatype 'a py_outcome = Hangs | Raised py_error | Returned 'a

text \<open>
  The world as a batch meets it: the environment of the task at each position of
  \<^verbatim>\<open>job_ids\<close>, and whether \<^verbatim>\<open>get_connection()\<close> succeeds in the \<open>k\<close>-th call of
  \<^verbatim>\<open>_save_batch_result\<close>.
\<close>

record batch_env =
  job_envs :: "nat \<Rightarrow> job_env"
  save_connects :: "nat \<Rightarrow> bool"

text \<open>
  \<^verbatim>\<open>_save_batch_result\<close> logs every exception of its \<^verbatim>\<open>try\<close> block; its \<^verbatim>\<open>finally\<close>
  block reads \<^verbatim>\<open>conn\<close>, unbound when \<^verbatim>\<open>get_connection()\<close> failed.
\<close>

definition save_batch_result :: "bool \<Rightarrow> py_error option" where
  "save_batch_result connects = (if connects then None else Some UnboundLocalError)"

text \<open>
  \<^verbatim>\<open>asyncio.gather(*tasks, return_exceptions=True)\<close>: one entry for each position of
  \<^verbatim>\<open>job_ids\<close>, the pair of job id and job result or the exception the task raised.
\<close>

definition gather_tasks ::
  "batch_env \<Rightarrow> BatchProcessingRequest \<Rightarrow> (py_error + (int \<times> JobProcessingResult)) list" where
  "gather_tasks benv request =
     map (\<lambda>(i, jid).
            (case process_single_job (job_envs benv i) request jid of
               Inl e \<Rightarrow> Inl e
             | Inr (jr, cs) \<Rightarrow> Inr (jid, jr)))
         (enumerate 0 (job_ids request))"

text \<open>The loop over \<^verbatim>\<open>completed_tasks\<close>, on (\<open>job_results\<close>, \<open>successful_jobs\<close>, \<open>failed_jobs\<close>).\<close>

fun process_results ::
  "(py_error + (int \<times> JobProcessingResult)) list
     \<Rightarrow> (int \<times> JobProcessingResult) list \<times> nat \<times> nat
     \<Rightarrow> (int \<times> JobProcessingResult) list \<times> nat \<times> nat" where
  "process_results [] acc = acc"
| "process_results (Inl e # rest) (results, successful, failed) =
     process_results rest (results, successful, failed + 1)"
| "process_results (Inr (jid, jr) # rest) (results, successful, failed) =
     (if overall_status jr = COMPLETED
      then process_results rest (dict_set results jid jr, successful + 1, failed)
      else process_results rest (dict_set results jid jr, successful, failed + 1))"

text \<open>
  The \<^verbatim>\<open>except\<close> block of \<^verbatim>\<open>process_jobs_batch\<close>, entered after \<open>k\<close> calls of
  \<^verbatim>\<open>_save_batch_result\<close> with the counters and results as they stand.
\<close>

definition batch_failed ::
  "batch_env \<Rightarrow> BatchProcessingRequest \<Rightarrow> nat \<Rightarrow> nat \<Rightarrow> (int \<times> JobProcessingResult) list
     \<Rightarrow> BatchProcessingResult py_outcome" where
  "batch_failed benv request k successful results =
     (case save_batch_result (save_connects benv k) of
        Some e \<Rightarrow> Raised e
      | None \<Rightarrow>
          Returned \<lparr>total_jobs = length (job_ids request),
                    successful_jobs = successful,
                    failed_jobs = length (job_ids request),
                    job_results = results,
                    batch_overall_status = FAILED\<rparr>)"

text \<open>
  \<^verbatim>\<open>process_jobs_batch\<close>.  \<^verbatim>\<open>asyncio.Semaphore(n)\<close> raises \<^verbatim>\<open>ValueError\<close> for
  \<open>n < 0\<close>; with \<open>n = 0\<close> no task ever passes the semaphore, so a non-empty batch never
  finishes.
\<close>

definition process_jobs_batch ::
  "batch_env \<Rightarrow> BatchProcessingRequest \<Rightarrow> BatchProcessingResult py_outcome" where
  "process_jobs_batch benv request =
     (if max_concurrent_jobs request < 0 then batch_failed benv request 0 0 []
      else if max_concurrent_jobs request = 0 \<and> job_ids request \<noteq> [] then Hangs
      else
        (case process_results (gather_tasks benv request) ([], 0, 0) of
           (results, successful, failed) \<Rightarrow>
             (case save_batch_result (save_connects benv 0) of
                Some e \<Rightarrow> batch_failed benv request 1 successful results
              | None \<Rightarrow>
                  Returned \<lparr>total_jobs = length (job_ids request),
                            successful_jobs = successful,
                            failed_jobs = failed,
                            job_results = results,
                            batch_overall_status =
                              (if successful = length (job_ids request) then COMPLETED
                               else if 0 < successful then COMPLETED
                               else FAILED)\<rparr>)))"

text \<open>Counting the job outcomes of a batch result by overall status.\<close>

definition count_outcomes :: "ProcessingStatus \<Rightarrow> BatchProcessingResult \<Rightarrow> nat" where
  "count_outcomes st r = length (filter (\<lambda>(jid, jr). overall_status jr = st) (job_results r))"

section \<open>Scenarios and invariants used below\<close>

subsection \<open>Rate limiter\<close>

text \<open>The configuration of the backoff example: cooldown 1 s, multiplier 2, ceiling 100 s.\<close>

definition spec_backoff_config :: RateLimitConfig where
  "spec_backoff_config = RateLimitConfig_default\<lparr>cooldown_seconds := 1, backoff_multiplier := 2, max_backoff_seconds := 100\<rparr>"

text \<open>A default limiter created at time 0 whose five burst tokens were taken at time 0.\<close>

definition drained_limiter :: RateLimiter where
  "drained_limiter = run_ops (RateLimiter_init RateLimitConfig_default 0)
     [(Acquire, 0), (Acquire, 0), (Acquire, 0), (Acquire, 0), (Acquire, 0)]"

text \<open>A default limiter created at time 0 after 1024 failures in a row, and after 1023.\<close>

definition overflowing_limiter :: RateLimiter where
  "overflowing_limiter =
     run_ops (RateLimiter_init RateLimitConfig_default 0) (replicate 1024 (RecordFailure, 0))"

definition capped_limiter :: RateLimiter where
  "capped_limiter =
     run_ops (RateLimiter_init RateLimitConfig_default 0) (replicate 1023 (RecordFailure, 0))"

text \<open>A limiter allowed two requests per hour, after two admissions at time 0.\<close>

definition hourly_capped_config :: RateLimitConfig where
  "hourly_capped_config = RateLimitConfig_default\<lparr>requests_per_hour := 2\<rparr>"

definition full_window_limiter :: RateLimiter where
  "full_window_limiter = run_ops (RateLimiter_init hourly_capped_config 0) [(Acquire, 0), (Acquire, 0)]"

text \<open>
  The registry after one admitted call to \<^verbatim>\<open>linkedin\<close> at time 0 that then failed, and a
  callable that counts its invocations in the world.
\<close>

definition backed_off_registry :: GlobalRateLimiter where
  "backed_off_registry =
     global_record_failure (snd (snd (global_acquire GlobalRateLimiter_init ''linkedin'' 0 0))) ''linkedin'' 0"

definition counting_callable :: "nat \<Rightarrow> (py_error + int option) \<times> nat" where
  "counting_callable n = (Inr (Some 42), n + 1)"

text \<open>
  The invariant of the token count: the limiter still has the configuration it was made
  with, and the count lies between zero and the burst limit.
\<close>

definition tokens_inv :: "RateLimitConfig \<Rightarrow> RateLimiter \<Rightarrow> bool" where
  "tokens_inv cfg l \<longleftrightarrow>
     config l = cfg \<and> refill_rate l = of_int (requests_per_minute cfg) / 60
     \<and> 0 \<le> tokens l \<and> tokens l \<le> of_int (burst_limit cfg)"

text \<open>
  The invariant of the sliding window.  \<open>H\<close> is the list of all admission times so far and
  \<open>T\<close> the latest clock reading: the window holds every admission not older than some
  cutoff at least an hour back, and no closed interval of one hour holds more admissions
  than \<^verbatim>\<open>requests_per_hour\<close>.
\<close>

definition window_inv :: "RateLimitConfig \<Rightarrow> RateLimiter \<Rightarrow> rat list \<Rightarrow> rat \<Rightarrow> bool" where
  "window_inv cfg l H T \<longleftrightarrow>
     config l = cfg \<and> sorted H \<and> (\<forall>t \<in> set H. t \<le> T)
     \<and> (\<exists>c. c \<le> T - 3600 \<and> request_times l = filter (\<lambda>t. c \<le> t) H)
     \<and> (\<forall>a. int (length (filter (\<lambda>t. a \<le> t \<and> t \<le> a + 3600) H)) \<le> max 0 (requests_per_hour cfg))"

subsection \<open>Orchestrator\<close>

text \<open>\<^verbatim>\<open>BatchProcessingRequest(job_ids=ids)\<close> with the defaults of the dataclass.\<close>

definition default_request :: "int list \<Rightarrow> BatchProcessingRequest" where
  "default_request ids =
     \<lparr>job_ids = ids, enable_filtering = True, enable_resume_customization = True,
      enable_contact_finding = True, enable_email_generation = True,
      enable_document_generation = True, filter_criteria = None,
      email_template = ''professional'', document_formats = [''html'', ''pdf'', ''markdown''],
      max_concurrent_jobs = 3\<rparr>"

text \<open>
  A world in which everything works: the job is in the database, nothing is cached, the
  filter accepts, and every collaborator delivers.
\<close>

definition happy_env :: job_env where
  "happy_env =
     \<lparr>jobs_row = Row \<lparr>title = ''Engineer'', company = ''Acme''\<rparr>,
      get_existing_filter_result = Returns None,
      load_default_filter_criteria = Returns ''default'',
      filter_jobs_batch = (\<lambda>c. Returns [ACCEPT]),
      get_customization_for_job = Returns None,
      customize_resume_for_job = Returns (Some ''resume''),
      find_contacts_for_company = Returns \<lparr>contacts = [''alice'', ''bob'']\<rparr>,
      generate_email = (\<lambda>c cust. Returns (Some (''mail to '' @ c))),
      generate_documents_for_job = (\<lambda>c. Returns (Some ''package''))\<rparr>"

text \<open>The same world with a filter that rejects the job.\<close>

definition rejecting_env :: job_env where
  "rejecting_env = happy_env\<lparr>filter_jobs_batch := (\<lambda>c. Returns [REJECT])\<rparr>"

text \<open>The same world with a resume customizer that raises.\<close>

definition resume_failing_env :: job_env where
  "resume_failing_env =
     happy_env\<lparr>customize_resume_for_job := Raises ''LLM unavailable''\<rparr>"

text \<open>The same world with a database that refuses the connection.\<close>

definition db_down_env :: job_env where
  "db_down_env = happy_env\<lparr>jobs_row := ConnectFails\<rparr>"

text \<open>What the pipeline returns for a job that the filter rejects in \<open>rejecting_env\<close>.\<close>

definition rejected_job_result :: JobProcessingResult where
  "rejected_job_result =
     \<lparr>job_id = 1, job_title = ''Engineer'', company_name = ''Acme'', overall_status = SKIPPED,
      steps = [(''filtering'', \<lparr>name = ''filtering'', status = COMPLETED, error_message = None\<rparr>)],
      filter_result = Some ''reject'', customization_result = None, contact_result = None,
      email_results = [], document_package = None\<rparr>"

text \<open>The calls of the stages that come after the filter.\<close>

fun later_stage_call :: "collaborator_call \<Rightarrow> bool" where
  "later_stage_call GetExistingFilterResult = False"
| "later_stage_call LoadDefaultFilterCriteria = False"
| "later_stage_call (FilterJobsBatch c) = False"
| "later_stage_call GetCustomizationForJob = True"
| "later_stage_call CustomizeResumeForJob = True"
| "later_stage_call FindContactsForCompany = True"
| "later_stage_call (GenerateEmail c cust) = True"
| "later_stage_call (GenerateDocumentsForJob c) = True"

text \<open>The names of the stages a request enables, in pipeline order.\<close>

definition enabled_stage_names :: "BatchProcessingRequest \<Rightarrow> string list" where
  "enabled_stage_names request =
     (if enable_filtering request then [''filtering''] else [])
     @ (if enable_resume_customization request then [''resume_customization''] else [])
     @ (if enable_contact_finding request then [''contact_finding''] else [])
     @ (if enable_email_generation request then [''email_generation''] else [])
     @ (if enable_document_generation request then [''document_generation''] else [])"

text \<open>
  The overall status carried by an entry of the gathered task results; a task that raised
  carries none.
\<close>

fun task_status :: "py_error + (int \<times> JobProcessingResult) \<Rightarrow> ProcessingStatus option" where
  "task_status (Inl e) = None"
| "task_status (Inr (jid, jr)) = Some (overall_status jr)"

text \<open>
  The batch of the specification's scenario: the filter rejects the first job, the resume
  customizer raises for the second, the third goes through; the database takes the result.
\<close>

definition three_job_env :: batch_env where
  "three_job_env =
     \<lparr>job_envs = (\<lambda>i. if i = 0 then rejecting_env else if i = 1 then resume_failing_env else happy_env),
      save_connects = (\<lambda>k. True)\<rparr>"

text \<open>A batch in which every job meets the rejecting filter.\<close>

definition rejecting_batch_env :: batch_env where
  "rejecting_batch_env = \<lparr>job_envs = (\<lambda>i. rejecting_env), save_connects = (\<lambda>k. True)\<rparr>"

text \<open>What the pipeline returns for the second job of the scenario, whose resume customizer raises.\<close>

definition resume_failed_job_result :: JobProcessingResult where
  "resume_failed_job_result =
     \<lparr>job_id = 2, job_title = ''Engineer'', company_name = ''Acme'', overall_status = FAILED,
      steps =
        [(''filtering'', \<lparr>name = ''filtering'', status = COMPLETED, error_message = None\<rparr>),
         (''resume_customization'',
          \<lparr>name = ''resume_customization'', status = FAILED, error_message = Some ''LLM unavailable''\<rparr>),
         (''contact_finding'', \<lparr>name = ''contact_finding'', status = COMPLETED, error_message = None\<rparr>),
         (''email_generation'', \<lparr>name = ''email_generation'', status = COMPLETED, error_message = None\<rparr>),
         (''document_generation'',
          \<lparr>name = ''document_generation'', status = FAILED,
           error_message = Some ''No customized resume available for document generation''\<rparr>)],
      filter_result = Some ''accept'', customization_result = None,
      contact_result = Some \<lparr>contacts = [''alice'', ''bob'']\<rparr>,
      email_results = [''mail to alice'', ''mail to bob''], document_package = None\<rparr>"

text \<open>What the pipeline returns for the third job of the scenario, for which everything works.\<close>

definition completed_job_result :: JobProcessingResult where
  "completed_job_result =
     \<lparr>job_id = 3, job_title = ''Engineer'', company_name = ''Acme'', overall_status = COMPLETED,
      steps =
        [(''filtering'', \<lparr>name = ''filtering'', status = COMPLETED, error_message = None\<rparr>),
         (''resume_customization'',
          \<lparr>name = ''resume_customization'', status = COMPLETED, error_message = None\<rparr>),
         (''contact_finding'', \<lparr>name = ''contact_finding'', status = COMPLETED, error_message = None\<rparr>),
         (''email_generation'', \<lparr>name = ''email_generation'', status = COMPLETED, error_message = None\<rparr>),
         (''document_generation'',
          \<lparr>name = ''document_generation'', status = COMPLETED, error_message = None\<rparr>)],
      filter_result = Some ''accept'', customization_result = Some ''resume'',
      contact_result = Some \<lparr>contacts = [''alice'', ''bob'']\<rparr>,
      email_results = [''mail to alice'', ''mail to bob''], document_package = Some ''package''\<rparr>"

text \<open>What \<open>process_jobs_batch\<close> returns for the one-job batch in \<open>rejecting_batch_env\<close>.\<close>

definition rejected_batch_result :: BatchProcessingResult where
  "rejected_batch_result =
     \<lparr>total_jobs = 1, successful_jobs = 0, failed_jobs = 1,
      job_results = [(1, rejected_job_result)],
      batch_overall_status = FAILED\<rparr>"

text \<open>What \<open>process_jobs_batch\<close> returns for the three jobs of the scenario.\<close>

definition three_job_batch_result :: BatchProcessingResult where
  "three_job_batch_result =
     \<lparr>total_jobs = 3, successful_jobs = 1, failed_jobs = 2,
      job_results = [(1, rejected_job_result), (2, resume_failed_job_result), (3, completed_job_result)],
      batch_overall_status = COMPLETED\<rparr>"

text \<open>
  The batch of the scenario with a database that refuses the connection while the second
  job loads its data, and what \<open>process_jobs_batch\<close> returns for it.
\<close>

definition db_down_batch_env :: batch_env where
  "db_down_batch_env =
     \<lparr>job_envs = (\<lambda>i. if i = 0 then rejecting_env else if i = 1 then db_down_env else happy_env),
      save_connects = (\<lambda>k. True)\<rparr>"

definition db_down_batch_result :: BatchProcessingResult where
  "db_down_batch_result =
     \<lparr>total_jobs = 3, successful_jobs = 1, failed_jobs = 2,
      job_results = [(1, rejected_job_result), (3, completed_job_result)],
      batch_overall_status = COMPLETED\<rparr>"

text \<open>
  A job result as the email and document stages meet it when resume customization and
  contact finding were disabled or failed, and one that has contacts but no customized
  resume.
\<close>

definition bare_job_result :: JobProcessingResult where
  "bare_job_result = JobProcessingResult_init 1 ''Engineer'' ''Acme'' IN_PROGRESS []"

definition contacts_only_job_result :: JobProcessingResult where
  "contacts_only_job_result =
     bare_job_result\<lparr>contact_result := Some \<lparr>contacts = [''alice'', ''bob'']\<rparr>\<rparr>"

text \<open>A job result has the given filter decision and overall status.\<close>

definition keeps_filter :: "string option \<Rightarrow> ProcessingStatus \<Rightarrow> JobProcessingResult \<Rightarrow> bool" where
  "keeps_filter fr st jr \<longleftrightarrow> filter_result jr = fr \<and> overall_status jr = st"

text \<open>The four stages after the filter, as the pipeline chains them.\<close>

definition later_stages :: "job_env \<Rightarrow> BatchProcessingRequest \<Rightarrow> JobProcessingResult \<Rightarrow> collaborator_call list \<Rightarrow> stage_result" where
  "later_stages env request jr cs =
     then_stage
       (then_stage
          (then_stage
             (then_stage (None, jr, cs) (enable_resume_customization request)
                (execute_resume_customization_step env))
             (enable_contact_finding request) (execute_contact_finding_step env))
          (enable_email_generation request) (execute_email_generation_step env))
       (enable_document_generation request) (execute_document_generation_step env)"

section \<open>Properties of the rate limiter\<close>

subsection \<open>Field projections\<close>

lemma check_hourly_limit_fields [simp]:
  "tokens (snd (check_hourly_limit l t)) = tokens l"
  "config (snd (check_hourly_limit l t)) = config l"
  "refill_rate (snd (check_hourly_limit l t)) = refill_rate l"
  "last_refill (snd (check_hourly_limit l t)) = last_refill l"
  "consecutive_failures (snd (check_hourly_limit l t)) = consecutive_failures l"
  "last_failure_time (snd (check_hourly_limit l t)) = last_failure_time l"
  "request_times (snd (check_hourly_limit l t)) = popleft_older (t - 3600) (request_times l)"
  "fst (check_hourly_limit l t) \<longleftrightarrow>
     int (length (popleft_older (t - 3600) (request_times l))) < requests_per_hour (config l)"
  by (simp_all add: check_hourly_limit_def Let_def)

lemma refill_tokens_fields [simp]:
  "config (refill_tokens l t) = config l"
  "refill_rate (refill_tokens l t) = refill_rate l"
  "last_refill (refill_tokens l t) = t"
  "request_times (refill_tokens l t) = request_times l"
  "consecutive_failures (refill_tokens l t) = consecutive_failures l"
  "last_failure_time (refill_tokens l t) = last_failure_time l"
  "tokens (refill_tokens l t) =
     min (of_int (burst_limit (config l))) (tokens l + (t - last_refill l) * refill_rate l)"
  by (simp_all add: refill_tokens_def Let_def)

lemma acquire_not_in_backoff:
  "is_in_backoff l now = Inr False \<Longrightarrow> acquire l now = acquire_token l now"
  by (simp add: acquire_def)

lemma acquire_in_backoff:
  "is_in_backoff l now = Inr True \<Longrightarrow> get_backoff_time l = Inr t \<Longrightarrow>
     acquire l now = (Inr False, [t], l)"
  by (simp add: acquire_def)

lemma acquire_overflow:
  "is_in_backoff l now = Inl e \<Longrightarrow> acquire l now = (Inl e, [], l)"
  by (simp add: acquire_def)

lemma acquire_unchanged:
  "is_in_backoff l now \<noteq> Inr False \<Longrightarrow>
     snd (snd (acquire l now)) = l \<and> fst (acquire l now) \<noteq> Inr True"
  by (auto simp: acquire_def split: sum.splits bool.splits)

lemma acquire_token_fields:
  "config (snd (snd (acquire_token l now))) = config l"
  "refill_rate (snd (snd (acquire_token l now))) = refill_rate l"
  "last_refill (snd (snd (acquire_token l now))) = now"
  "request_times (snd (snd (acquire_token l now))) =
     (if fst (acquire_token l now) = Inr True then popleft_older (now - 3600) (request_times l) @ [now]
      else popleft_older (now - 3600) (request_times l))"
  "tokens (snd (snd (acquire_token l now))) =
     (if fst (acquire_token l now) = Inr True then tokens (refill_tokens l now) - 1
      else tokens (refill_tokens l now))"
  by (auto simp: acquire_token_def Let_def)

lemma acquire_token_admits:
  "fst (acquire_token l now) = Inr True \<Longrightarrow>
     1 \<le> tokens (refill_tokens l now)
     \<and> int (length (popleft_older (now - 3600) (request_times l))) < requests_per_hour (config l)"
  by (auto simp: acquire_token_def Let_def split: if_splits)

lemma acquire_request_times:
  "config (snd (snd (acquire l now))) = config l"
  "request_times (snd (snd (acquire l now))) =
     (if is_in_backoff l now \<noteq> Inr False then request_times l
      else if fst (acquire l now) = Inr True then popleft_older (now - 3600) (request_times l) @ [now]
      else popleft_older (now - 3600) (request_times l))"
  "fst (acquire l now) = Inr True \<Longrightarrow>
     is_in_backoff l now = Inr False
     \<and> int (length (popleft_older (now - 3600) (request_times l))) < requests_per_hour (config l)"
proof -
  show "config (snd (snd (acquire l now))) = config l"
    using acquire_unchanged [of l now] acquire_not_in_backoff [of l now]
    by (cases "is_in_backoff l now = Inr False") (simp_all add: acquire_token_fields)
  show "request_times (snd (snd (acquire l now))) =
     (if is_in_backoff l now \<noteq> Inr False then request_times l
      else if fst (acquire l now) = Inr True then popleft_older (now - 3600) (request_times l) @ [now]
      else popleft_older (now - 3600) (request_times l))"
    using acquire_unchanged [of l now] acquire_not_in_backoff [of l now]
    by (cases "is_in_backoff l now = Inr False") (simp_all add: acquire_token_fields)
  show "is_in_backoff l now = Inr False
     \<and> int (length (popleft_older (now - 3600) (request_times l))) < requests_per_hour (config l)"
    if "fst (acquire l now) = Inr True"
    using that acquire_unchanged [of l now] acquire_not_in_backoff [of l now]
      acquire_token_admits [of l now]
    by (cases "is_in_backoff l now = Inr False") simp_all
qed

lemma acquire_tokens:
  "fst (acquire l now) = Inr True \<Longrightarrow>
     1 \<le> tokens (refill_tokens l now) \<and> tokens (snd (snd (acquire l now))) = tokens (refill_tokens l now) - 1"
  "fst (acquire l now) \<noteq> Inr True \<Longrightarrow>
     tokens (snd (snd (acquire l now))) =
       (if is_in_backoff l now = Inr False then tokens (refill_tokens l now) else tokens l)"
proof -
  show "1 \<le> tokens (refill_tokens l now) \<and> tokens (snd (snd (acquire l now))) = tokens (refill_tokens l now) - 1"
    if "fst (acquire l now) = Inr True"
    using that acquire_unchanged [of l now] acquire_not_in_backoff [of l now]
      acquire_token_admits [of l now]
    by (cases "is_in_backoff l now = Inr False") (simp_all add: acquire_token_fields)
  show "tokens (snd (snd (acquire l now))) =
       (if is_in_backoff l now = Inr False then tokens (refill_tokens l now) else tokens l)"
    if "fst (acquire l now) \<noteq> Inr True"
    using that acquire_unchanged [of l now] acquire_not_in_backoff [of l now]
    by (cases "is_in_backoff l now = Inr False") (simp_all add: acquire_token_fields)
qed

lemma get_status_state: "snd (get_status l now) = refill_tokens l now"
  by (simp add: get_status_def Let_def split: sum.splits)

lemma backoff_time_value:
  "get_backoff_time l = Inr t \<Longrightarrow>
     t = min (cooldown_seconds (config l) * backoff_multiplier (config l) ^ consecutive_failures l)
             (max_backoff_seconds (config l))"
  by (auto simp: get_backoff_time_def float_pow_def split: sum.splits if_splits)

lemma in_backoff_value:
  "get_backoff_time l = Inr t \<Longrightarrow>
     is_in_backoff l now = Inr (consecutive_failures l \<noteq> 0 \<and> now - last_failure_time l < t)"
  by (simp add: is_in_backoff_def)

lemma run_failures:
  "run_ops l (replicate n (RecordFailure, t)) =
     (if n = 0 then l
      else l\<lparr>consecutive_failures := consecutive_failures l + n, last_failure_time := t\<rparr>)"
  by (induction n arbitrary: l) (auto simp: record_failure_def)

subsection \<open>Backoff\<close>

text \<open>
  Claim C7.  The code computes the backoff time as \<open>min (cooldown_seconds * backoff_multiplier ^
  consecutive_failures) max_backoff_seconds\<close>, but it takes the power in floats before
  \<^verbatim>\<open>min\<close> caps it.  After 1023 failures in a row a default limiter has the backoff time
  300, the cap; after 1024 the power \<open>2 ^ 1024\<close> overflows, and \<open>get_backoff_time\<close> and
  with it \<open>acquire\<close> raise \<^verbatim>\<open>OverflowError\<close>, where the formula of the claim gives 300.
\<close>

theorem backoff_overflows_before_cap:
  "consecutive_failures overflowing_limiter = 1024
   \<and> get_backoff_time overflowing_limiter = Inl OverflowError
   \<and> fst (acquire overflowing_limiter 1) = Inl OverflowError
   \<and> min (cooldown_seconds (config overflowing_limiter)
            * backoff_multiplier (config overflowing_limiter) ^ consecutive_failures overflowing_limiter)
          (max_backoff_seconds (config overflowing_limiter)) = 300
   \<and> consecutive_failures capped_limiter = 1023
   \<and> get_backoff_time capped_limiter = Inr 300"
  by (simp add: overflowing_limiter_def capped_limiter_def run_failures RateLimiter_init_def
      RateLimitConfig_default_def get_backoff_time_def float_pow_def acquire_def is_in_backoff_def)

subsection \<open>One attempt per call\<close>

text \<open>
  Claim C2, as the code has it.  When the backoff time can be computed and the refill rate
  is not zero, \<open>acquire\<close> returns a boolean after a single attempt: it returns
  \<^verbatim>\<open>False\<close> exactly when the limiter is in backoff, the pruned hourly window is full, or
  less than one token is left after the refill.  In backoff it sleeps the backoff time and
  leaves the limiter unchanged, with a full window it does not sleep at all, without a token
  it sleeps \<open>1 / refill_rate\<close>; in each case the refusal is what the caller gets, there is
  no second attempt.
\<close>

theorem acquire_single_attempt:
  "refill_rate l \<noteq> 0 \<Longrightarrow> get_backoff_time l = Inr t \<Longrightarrow>
   (\<exists>b. fst (acquire l now) = Inr b)
   \<and> (fst (acquire l now) = Inr False \<longleftrightarrow>
        is_in_backoff l now = Inr True
        \<or> \<not> fst (check_hourly_limit (refill_tokens l now) now)
        \<or> tokens (refill_tokens l now) < 1)
   \<and> t = min (cooldown_seconds (config l) * backoff_multiplier (config l) ^ consecutive_failures l)
            (max_backoff_seconds (config l))
   \<and> (is_in_backoff l now = Inr True \<longrightarrow> acquire l now = (Inr False, [t], l))
   \<and> (is_in_backoff l now = Inr False \<and> \<not> fst (check_hourly_limit (refill_tokens l now) now) \<longrightarrow>
        fst (snd (acquire l now)) = [])
   \<and> (is_in_backoff l now = Inr False \<and> fst (check_hourly_limit (refill_tokens l now) now)
        \<and> tokens (refill_tokens l now) < 1 \<longrightarrow>
        fst (snd (acquire l now)) = [1 / refill_rate l])"
proof -
  assume rr: "refill_rate l \<noteq> 0" and bt: "get_backoff_time l = Inr t"
  note ib = in_backoff_value [OF bt, of now]
  show ?thesis
  proof (cases "consecutive_failures l \<noteq> 0 \<and> now - last_failure_time l < t")
    case True
    with ib have "is_in_backoff l now = Inr True" by simp
    with acquire_in_backoff [OF this bt] backoff_time_value [OF bt] show ?thesis by auto
  next
    case False
    with ib have nb: "is_in_backoff l now = Inr False" by simp
    with rr backoff_time_value [OF bt] show ?thesis
      by (auto simp: acquire_not_in_backoff acquire_token_def Let_def)
  qed
qed

lemma drained_state:
  "drained_limiter = \<lparr>config = RateLimitConfig_default, tokens = 0, last_refill = 0,
     request_times = [0, 0, 0, 0, 0], consecutive_failures = 0, last_failure_time = 0,
     refill_rate = 1 / 2\<rparr>"
  by (simp add: drained_limiter_def RateLimiter_init_def RateLimitConfig_default_def acquire_def
      acquire_token_def is_in_backoff_def Let_def)

theorem acquire_single_attempt_witness:
  "refill_rate drained_limiter \<noteq> 0 \<and> get_backoff_time drained_limiter = Inr 1
   \<and> fst (acquire drained_limiter 0) = Inr False
   \<and> fst (snd (acquire drained_limiter 0)) = [2]"
  using acquire_single_attempt [of drained_limiter 1 0]
  by (simp add: drained_state RateLimitConfig_default_def get_backoff_time_def float_pow_def
      is_in_backoff_def)

text \<open>
  Claim C2 as stated fails: on a limiter whose tokens are used up \<open>acquire\<close> sleeps two
  seconds and then returns \<^verbatim>\<open>False\<close> to its caller.
\<close>

theorem acquire_refuses_counterexample:
  "acquire drained_limiter 0 = (Inr False, [2], drained_limiter)"
  by (simp add: drained_state RateLimitConfig_default_def acquire_def acquire_token_def
      is_in_backoff_def Let_def)

subsection \<open>The token count\<close>

lemma tokens_inv_refill:
  assumes "tokens_inv cfg l" "0 \<le> requests_per_minute cfg" "last_refill l \<le> now"
  shows "tokens_inv cfg (refill_tokens l now)"
proof -
  have "0 \<le> (now - last_refill l) * refill_rate l"
    using assms by (simp add: tokens_inv_def)
  then show ?thesis
    using assms by (auto simp: tokens_inv_def min_def)
qed

lemma tokens_inv_acquire:
  assumes "tokens_inv cfg l" "0 \<le> requests_per_minute cfg" "last_refill l \<le> now"
  shows "tokens_inv cfg (snd (snd (acquire l now))) \<and> last_refill (snd (snd (acquire l now))) \<le> now"
proof (cases "is_in_backoff l now = Inr False")
  case True
  have adm: "1 \<le> tokens (refill_tokens l now)" if "fst (acquire_token l now) = Inr True"
    using acquire_token_admits [OF that] by simp
  from tokens_inv_refill [OF assms] adm show ?thesis
    unfolding acquire_not_in_backoff [OF True]
    by (auto simp: tokens_inv_def acquire_token_fields simp del: refill_tokens_fields(7))
next
  case False
  with acquire_unchanged [OF False] assms show ?thesis by simp
qed

lemma tokens_inv_get_status:
  assumes "tokens_inv cfg l" "0 \<le> requests_per_minute cfg" "last_refill l \<le> now"
  shows "tokens_inv cfg (snd (get_status l now)) \<and> last_refill (snd (get_status l now)) \<le> now"
  using tokens_inv_refill [OF assms] by (simp add: get_status_state)

lemma tokens_inv_apply_op:
  assumes "tokens_inv cfg l" "0 \<le> requests_per_minute cfg" "last_refill l \<le> now"
  shows "tokens_inv cfg (apply_op l (op, now)) \<and> last_refill (apply_op l (op, now)) \<le> now"
proof (cases op)
  case Acquire
  then show ?thesis using tokens_inv_acquire [OF assms] by simp
next
  case RecordSuccess
  then show ?thesis using assms by (simp add: record_success_def tokens_inv_def)
next
  case RecordFailure
  then show ?thesis using assms by (simp add: record_failure_def tokens_inv_def)
next
  case GetStatus
  then show ?thesis using tokens_inv_get_status [OF assms] by simp
qed

lemma tokens_inv_run_ops:
  "tokens_inv cfg l \<Longrightarrow> 0 \<le> requests_per_minute cfg \<Longrightarrow> sorted (last_refill l # map snd ops)
     \<Longrightarrow> tokens_inv cfg (run_ops l ops)"
proof (induction ops arbitrary: l)
  case Nil
  then show ?case by simp
next
  case (Cons x ops)
  obtain op now where x: "x = (op, now)" by (cases x)
  from Cons.prems have le: "last_refill l \<le> now" and srt: "sorted (now # map snd ops)"
    by (simp_all add: x)
  from tokens_inv_apply_op [OF Cons.prems(1,2) le, of op]
  have inv': "tokens_inv cfg (apply_op l x)" and le': "last_refill (apply_op l x) \<le> now"
    by (simp_all add: x)
  from srt le' have "sorted (last_refill (apply_op l x) # map snd ops)"
    by auto
  from Cons.IH [OF inv' Cons.prems(2) this] show ?case by simp
qed

lemma tokens_inv_init:
  "0 \<le> burst_limit cfg \<Longrightarrow> tokens_inv cfg (RateLimiter_init cfg t0)"
  by (simp add: tokens_inv_def RateLimiter_init_def)

lemma sorted_take_ops:
  "sorted (t0 # map snd ops) \<Longrightarrow> sorted (t0 # map snd (take n ops))"
  by (metis sorted_wrt_take take_Suc_Cons take_map)

text \<open>
  Claim C9, as the code has it.  For a configuration with non-negative burst limit and
  refill rate and clock readings that do not go backwards, the token count lies between zero
  and the burst limit after every prefix of any sequence of \<open>acquire\<close>, \<open>record_success\<close>,
  \<open>record_failure\<close> and \<open>get_status\<close>.  Every refill caps the count at the burst limit,
  and \<open>acquire\<close> takes a token only when it admits the call, which needs at least one
  token.
\<close>

theorem token_count_within_bounds:
  assumes "0 \<le> burst_limit cfg" and "0 \<le> requests_per_minute cfg"
    and "sorted (t0 # map snd ops)"
  shows "0 \<le> tokens (run_ops (RateLimiter_init cfg t0) (take n ops))
     \<and> tokens (run_ops (RateLimiter_init cfg t0) (take n ops)) \<le> of_int (burst_limit cfg)
     \<and> tokens (refill_tokens l t) \<le> of_int (burst_limit (config l))
     \<and> (fst (acquire l t) = Inr True \<longrightarrow>
          1 \<le> tokens (refill_tokens l t)
          \<and> tokens (snd (snd (acquire l t))) = tokens (refill_tokens l t) - 1)
     \<and> (fst (acquire l t) \<noteq> Inr True \<longrightarrow>
          tokens (snd (snd (acquire l t))) =
            (if is_in_backoff l t = Inr False then tokens (refill_tokens l t) else tokens l))"
proof -
  have "sorted (last_refill (RateLimiter_init cfg t0) # map snd (take n ops))"
    using sorted_take_ops [OF assms(3)] by (simp add: RateLimiter_init_def)
  from tokens_inv_run_ops [OF tokens_inv_init [OF assms(1)] assms(2) this]
  have "0 \<le> tokens (run_ops (RateLimiter_init cfg t0) (take n ops))
     \<and> tokens (run_ops (RateLimiter_init cfg t0) (take n ops)) \<le> of_int (burst_limit cfg)"
    by (simp add: tokens_inv_def)
  moreover have "tokens (refill_tokens l t) \<le> of_int (burst_limit (config l))"
    by simp
  ultimately show ?thesis
    using acquire_tokens [of l t] by blast
qed

theorem token_count_within_bounds_witness:
  "0 \<le> burst_limit RateLimitConfig_default \<and> 0 \<le> requests_per_minute RateLimitConfig_default
   \<and> sorted ((0::rat) # map snd
        [(Acquire, 0), (GetStatus, 1), (RecordFailure, 2), (Acquire, 3), (RecordSuccess, 4), (Acquire, 10::rat)])
   \<and> tokens (run_ops (RateLimiter_init RateLimitConfig_default 0)
        (take 6 [(Acquire, 0), (GetStatus, 1), (RecordFailure, 2), (Acquire, 3), (RecordSuccess, 4), (Acquire, 10)])) = 4
   \<and> fst (acquire (RateLimiter_init RateLimitConfig_default 0) 0) = Inr True
   \<and> tokens (snd (snd (acquire (RateLimiter_init RateLimitConfig_default 0) 0))) = 4"
  using token_count_within_bounds [of RateLimitConfig_default 0
      "[(Acquire, 0), (GetStatus, 1), (RecordFailure, 2), (Acquire, 3), (RecordSuccess, 4), (Acquire, 10)]"
      6 "RateLimiter_init RateLimitConfig_default 0" 0]
  by (simp add: RateLimiter_init_def RateLimitConfig_default_def acquire_def acquire_token_def
      is_in_backoff_def get_backoff_time_def float_pow_def get_status_state record_failure_def
      record_success_def Let_def)

text \<open>
  Claim C9 as stated fails.  A limiter created at clock reading 100 whose status is asked at
  clock reading 89, the wall clock having been set back, has \<open>- 1 / 2\<close> tokens; and a
  limiter made with the burst limit \<open>- 1\<close> starts with \<open>- 1\<close> tokens.
\<close>

theorem token_count_counterexample:
  "tokens (run_ops (RateLimiter_init RateLimitConfig_default 100) [(GetStatus, 89)]) = - (1 / 2)
   \<and> tokens (RateLimiter_init (RateLimitConfig_default\<lparr>burst_limit := - 1\<rparr>) 0) = - 1"
  by (simp add: RateLimiter_init_def RateLimitConfig_default_def get_status_state)

subsection \<open>The hourly window\<close>

lemma popleft_older_sorted:
  "sorted ts \<Longrightarrow> popleft_older c ts = filter (\<lambda>t. c \<le> t) ts"
proof (induction ts)
  case Nil
  then show ?case by simp
next
  case (Cons t ts)
  show ?case
  proof (cases "t < c")
    case True
    with Cons show ?thesis by simp
  next
    case False
    with Cons.prems have "\<forall>u \<in> set ts. c \<le> u" by auto
    then have "filter (\<lambda>t. c \<le> t) ts = ts" by (simp add: filter_id_conv)
    with False show ?thesis by simp
  qed
qed

lemma popleft_older_filter:
  assumes "sorted H" "c \<le> d"
  shows "popleft_older d (filter (\<lambda>t. c \<le> t) H) = filter (\<lambda>t. d \<le> t) H"
proof -
  have "sorted (filter (\<lambda>t. c \<le> t) H)" using assms(1) by (rule sorted_wrt_filter)
  then have "popleft_older d (filter (\<lambda>t. c \<le> t) H) = filter (\<lambda>t. d \<le> t) (filter (\<lambda>t. c \<le> t) H)"
    by (rule popleft_older_sorted)
  also have "\<dots> = filter (\<lambda>t. c \<le> t \<and> d \<le> t) H"
    by simp
  also have "\<dots> = filter (\<lambda>t. d \<le> t) H"
    by (rule filter_cong) (use assms(2) in auto)
  finally show ?thesis .
qed

lemma window_count_le:
  fixes a now :: rat
  assumes "a \<le> now" "now \<le> a + 3600"
  shows "length (filter (\<lambda>t. a \<le> t \<and> t \<le> a + 3600) H) \<le> length (filter (\<lambda>t. now - 3600 \<le> t) H)"
proof -
  have "filter (\<lambda>t. a \<le> t \<and> t \<le> a + 3600) H = filter (\<lambda>t. now - 3600 \<le> t \<and> a \<le> t \<and> t \<le> a + 3600) H"
    by (rule filter_cong) (use assms in auto)
  also have "\<dots> = filter (\<lambda>t. a \<le> t \<and> t \<le> a + 3600) (filter (\<lambda>t. now - 3600 \<le> t) H)"
    by simp
  finally have "length (filter (\<lambda>t. a \<le> t \<and> t \<le> a + 3600) H)
      = length (filter (\<lambda>t. a \<le> t \<and> t \<le> a + 3600) (filter (\<lambda>t. now - 3600 \<le> t) H))"
    by simp
  also have "\<dots> \<le> length (filter (\<lambda>t. now - 3600 \<le> t) H)"
    by (rule length_filter_le)
  finally show ?thesis .
qed

lemma window_invI:
  assumes "config l = cfg" "sorted H" "\<forall>t \<in> set H. t \<le> T"
    and "c \<le> T - 3600" "request_times l = filter (\<lambda>t. c \<le> t) H"
    and "\<forall>a. int (length (filter (\<lambda>t. a \<le> t \<and> t \<le> a + 3600) H)) \<le> max 0 (requests_per_hour cfg)"
  shows "window_inv cfg l H T"
  unfolding window_inv_def using assms by blast

lemma window_inv_other:
  assumes "window_inv cfg l H T" "T \<le> now"
    and "config l' = config l" "request_times l' = request_times l"
  shows "window_inv cfg l' H now"
proof -
  from assms(1) obtain c where c: "c \<le> T - 3600" "request_times l = filter (\<lambda>t. c \<le> t) H"
    unfolding window_inv_def by auto
  show ?thesis
  proof (rule window_invI [where c = c])
    show "config l' = cfg" using assms(1,3) by (simp add: window_inv_def)
    show "sorted H" using assms(1) by (simp add: window_inv_def)
    show "\<forall>t \<in> set H. t \<le> now" using assms(1,2) by (auto simp: window_inv_def)
    show "c \<le> now - 3600" using c(1) assms(2) by simp
    show "request_times l' = filter (\<lambda>t. c \<le> t) H" using c(2) assms(4) by simp
    show "\<forall>a. int (length (filter (\<lambda>t. a \<le> t \<and> t \<le> a + 3600) H)) \<le> max 0 (requests_per_hour cfg)"
      using assms(1) by (simp add: window_inv_def)
  qed
qed

lemma window_inv_pruned:
  assumes "window_inv cfg l H T" "T \<le> now"
    and "config l' = config l" "request_times l' = popleft_older (now - 3600) (request_times l)"
  shows "window_inv cfg l' H now \<and> request_times l' = filter (\<lambda>t. now - 3600 \<le> t) H"
proof -
  from assms(1) obtain c where c: "c \<le> T - 3600" "request_times l = filter (\<lambda>t. c \<le> t) H"
    and srt: "sorted H" unfolding window_inv_def by auto
  from c(1) assms(2) have "c \<le> now - 3600" by simp
  from popleft_older_filter [OF srt this] c(2) assms(4)
  have rt: "request_times l' = filter (\<lambda>t. now - 3600 \<le> t) H" by simp
  have "window_inv cfg l' H now"
  proof (rule window_invI [where c = "now - 3600"])
    show "config l' = cfg" using assms(1,3) by (simp add: window_inv_def)
    show "sorted H" by (rule srt)
    show "\<forall>t \<in> set H. t \<le> now" using assms(1,2) by (auto simp: window_inv_def)
    show "now - 3600 \<le> now - 3600" by simp
    show "request_times l' = filter (\<lambda>t. now - 3600 \<le> t) H" by (rule rt)
    show "\<forall>a. int (length (filter (\<lambda>t. a \<le> t \<and> t \<le> a + 3600) H)) \<le> max 0 (requests_per_hour cfg)"
      using assms(1) by (simp add: window_inv_def)
  qed
  with rt show ?thesis by simp
qed

lemma window_inv_admit:
  assumes "window_inv cfg l H T" "T \<le> now"
    and "config l' = config l" "request_times l' = popleft_older (now - 3600) (request_times l) @ [now]"
    and lt: "int (length (popleft_older (now - 3600) (request_times l))) < requests_per_hour cfg"
  shows "window_inv cfg l' (H @ [now]) now"
proof -
  define l1 where "l1 = l\<lparr>request_times := popleft_older (now - 3600) (request_times l)\<rparr>"
  have both: "window_inv cfg l1 H now \<and> request_times l1 = filter (\<lambda>t. now - 3600 \<le> t) H"
    by (rule window_inv_pruned [OF assms(1,2)]) (simp_all add: l1_def)
  then have inv1: "window_inv cfg l1 H now" by simp
  have "request_times l1 = popleft_older (now - 3600) (request_times l)" by (simp add: l1_def)
  with both have rt1: "popleft_older (now - 3600) (request_times l) = filter (\<lambda>t. now - 3600 \<le> t) H"
    by simp
  show ?thesis
  proof (rule window_invI [where c = "now - 3600"])
    show "config l' = cfg" using assms(1,3) by (simp add: window_inv_def)
    show "sorted (H @ [now])" using inv1 by (auto simp: window_inv_def sorted_append)
    show "\<forall>t \<in> set (H @ [now]). t \<le> now" using inv1 by (auto simp: window_inv_def)
    show "now - 3600 \<le> now - 3600" by simp
    show "request_times l' = filter (\<lambda>t. now - 3600 \<le> t) (H @ [now])"
      using assms(4) rt1 by simp
    show "\<forall>a. int (length (filter (\<lambda>t. a \<le> t \<and> t \<le> a + 3600) (H @ [now]))) \<le> max 0 (requests_per_hour cfg)"
    proof
      fix a
      show "int (length (filter (\<lambda>t. a \<le> t \<and> t \<le> a + 3600) (H @ [now]))) \<le> max 0 (requests_per_hour cfg)"
      proof (cases "a \<le> now \<and> now \<le> a + 3600")
        case True
        then have "length (filter (\<lambda>t. a \<le> t \<and> t \<le> a + 3600) H) \<le> length (filter (\<lambda>t. now - 3600 \<le> t) H)"
          using window_count_le by blast
        with lt rt1 True show ?thesis by simp
      next
        case False
        then have "filter (\<lambda>t. a \<le> t \<and> t \<le> a + 3600) (H @ [now]) = filter (\<lambda>t. a \<le> t \<and> t \<le> a + 3600) H"
          by auto
        with inv1 show ?thesis by (simp add: window_inv_def)
      qed
    qed
  qed
qed

lemma window_inv_apply_op:
  assumes "window_inv cfg l H T" "T \<le> now"
  shows "window_inv cfg (apply_op l (op, now))
           (if op = Acquire \<and> fst (acquire l now) = Inr True then H @ [now] else H) now"
proof (cases op)
  case Acquire
  have cfg: "config l = cfg" using assms(1) by (simp add: window_inv_def)
  show ?thesis
  proof (cases "fst (acquire l now) = Inr True")
    case True
    from acquire_request_times(3) [OF True] cfg
    have nb: "is_in_backoff l now = Inr False"
      and lt: "int (length (popleft_older (now - 3600) (request_times l))) < requests_per_hour cfg" by simp_all
    have "window_inv cfg (snd (snd (acquire l now))) (H @ [now]) now"
      by (rule window_inv_admit [OF assms]) (simp_all add: acquire_request_times True nb lt)
    with Acquire True show ?thesis by simp
  next
    case False
    show ?thesis
    proof (cases "is_in_backoff l now = Inr False")
      case nb: True
      have "window_inv cfg (snd (snd (acquire l now))) H now"
        using window_inv_pruned [OF assms, of "snd (snd (acquire l now))"]
        by (simp add: acquire_request_times False nb)
      with Acquire False show ?thesis by simp
    next
      case b: False
      have "window_inv cfg (snd (snd (acquire l now))) H now"
        by (rule window_inv_other [OF assms]) (simp_all add: acquire_request_times b)
      with Acquire False show ?thesis by simp
    qed
  qed
next
  case RecordSuccess
  have "window_inv cfg (record_success l) H now"
    by (rule window_inv_other [OF assms]) (simp_all add: record_success_def)
  with RecordSuccess show ?thesis by simp
next
  case RecordFailure
  have "window_inv cfg (record_failure l now) H now"
    by (rule window_inv_other [OF assms]) (simp_all add: record_failure_def)
  with RecordFailure show ?thesis by simp
next
  case GetStatus
  have "window_inv cfg (snd (get_status l now)) H now"
    by (rule window_inv_other [OF assms]) (simp_all add: get_status_state)
  with GetStatus show ?thesis by simp
qed

lemma window_inv_run:
  "window_inv cfg l H T \<Longrightarrow> sorted (T # map snd ops) \<Longrightarrow>
     \<exists>l' T'. window_inv cfg l' (H @ admitted_times l ops) T'"
proof (induction ops arbitrary: l H T)
  case Nil
  then show ?case by auto
next
  case (Cons x ops)
  obtain op now where x: "x = (op, now)" by (cases x)
  from Cons.prems(2) have le: "T \<le> now" and srt: "sorted (now # map snd ops)"
    by (simp_all add: x)
  let ?H = "if op = Acquire \<and> fst (acquire l now) = Inr True then H @ [now] else H"
  from window_inv_apply_op [OF Cons.prems(1) le, of op]
  have "window_inv cfg (apply_op l x) ?H now" by (simp add: x)
  from Cons.IH [OF this srt]
  obtain l' T' where inv': "window_inv cfg l' (?H @ admitted_times (apply_op l x) ops) T'" by blast
  have "?H @ admitted_times (apply_op l x) ops = H @ admitted_times l (x # ops)"
    by (simp add: x)
  with inv' have "window_inv cfg l' (H @ admitted_times l (x # ops)) T'" by (simp only:)
  then show ?case by blast
qed

lemma window_inv_init: "window_inv cfg (RateLimiter_init cfg t0) [] t0"
  by (auto simp: window_inv_def RateLimiter_init_def)

lemma admitted_window_bound:
  assumes "sorted (t0 # map snd ops)"
  shows "int (length (filter (\<lambda>t. a \<le> t \<and> t \<le> a + 3600) (admitted_times (RateLimiter_init cfg t0) ops)))
           \<le> max 0 (requests_per_hour cfg)"
proof -
  from window_inv_run [OF window_inv_init assms]
  obtain l' T' where "window_inv cfg l' ([] @ admitted_times (RateLimiter_init cfg t0) ops) T'" by blast
  then show ?thesis by (simp add: window_inv_def)
qed

lemma acquire_window_full:
  assumes "is_in_backoff l now = Inr False"
    and "requests_per_hour (config l) \<le> int (length (popleft_older (now - 3600) (request_times l)))"
  shows "acquire l now =
          (Inr False, [],
           (refill_tokens l now)\<lparr>request_times := popleft_older (now - 3600) (request_times l)\<rparr>)"
  using assms by (simp add: acquire_not_in_backoff acquire_token_def Let_def check_hourly_limit_def)

text \<open>
  Claim C6, as the code has it.  With clock readings that do not go backwards, no closed
  interval of 3600 seconds holds more admitted \<open>acquire\<close> calls than \<^verbatim>\<open>requests_per_hour\<close>
  (none at all when that is not positive).  An \<open>acquire\<close> that is not in backoff prunes the
  window of the entries older than 3600 seconds, which on a sorted window leaves exactly the
  entries not older than that.  When the pruned window already holds \<^verbatim>\<open>requests_per_hour\<close>
  entries, \<open>acquire\<close> returns \<^verbatim>\<open>False\<close> at once: it does not sleep and does not retry.
  An \<open>acquire\<close> whose backoff check raises admits nothing and leaves the limiter as it was.
\<close>

theorem hourly_window_bound_and_refusal:
  "sorted (t0 # map snd ops) \<Longrightarrow>
   int (length (filter (\<lambda>t. a \<le> t \<and> t \<le> a + 3600) (admitted_times (RateLimiter_init cfg t0) ops)))
     \<le> max 0 (requests_per_hour cfg)
   \<and> (is_in_backoff l now = Inr False \<longrightarrow>
        request_times (snd (snd (acquire l now))) =
          (if fst (acquire l now) = Inr True
           then popleft_older (now - 3600) (request_times l) @ [now]
           else popleft_older (now - 3600) (request_times l)))
   \<and> (sorted (request_times l) \<longrightarrow>
        popleft_older (now - 3600) (request_times l) = filter (\<lambda>t. now - 3600 \<le> t) (request_times l))
   \<and> (is_in_backoff l now = Inr False
        \<and> requests_per_hour (config l) \<le> int (length (popleft_older (now - 3600) (request_times l))) \<longrightarrow>
        acquire l now =
          (Inr False, [],
           (refill_tokens l now)\<lparr>request_times := popleft_older (now - 3600) (request_times l)\<rparr>))
   \<and> (is_in_backoff l now = Inl e \<longrightarrow> acquire l now = (Inl e, [], l))"
proof (intro conjI impI)
  assume "sorted (t0 # map snd ops)"
  then show "int (length (filter (\<lambda>t. a \<le> t \<and> t \<le> a + 3600) (admitted_times (RateLimiter_init cfg t0) ops)))
     \<le> max 0 (requests_per_hour cfg)"
    by (rule admitted_window_bound)
next
  assume "is_in_backoff l now = Inr False"
  then show "request_times (snd (snd (acquire l now))) =
          (if fst (acquire l now) = Inr True
           then popleft_older (now - 3600) (request_times l) @ [now]
           else popleft_older (now - 3600) (request_times l))"
    by (simp add: acquire_request_times(2))
next
  assume "sorted (request_times l)"
  then show "popleft_older (now - 3600) (request_times l) = filter (\<lambda>t. now - 3600 \<le> t) (request_times l)"
    by (rule popleft_older_sorted)
next
  assume "is_in_backoff l now = Inr False
        \<and> requests_per_hour (config l) \<le> int (length (popleft_older (now - 3600) (request_times l)))"
  then show "acquire l now =
          (Inr False, [],
           (refill_tokens l now)\<lparr>request_times := popleft_older (now - 3600) (request_times l)\<rparr>)"
    using acquire_window_full by blast
next
  assume "is_in_backoff l now = Inl e"
  then show "acquire l now = (Inl e, [], l)"
    by (rule acquire_overflow)
qed

lemma full_window_state:
  "full_window_limiter =
     \<lparr>config = hourly_capped_config, tokens = 3, last_refill = 0, request_times = [0, 0],
      consecutive_failures = 0, last_failure_time = 0, refill_rate = 1 / 2\<rparr>"
  by (simp add: full_window_limiter_def hourly_capped_config_def RateLimiter_init_def
      RateLimitConfig_default_def acquire_def acquire_token_def is_in_backoff_def Let_def)

lemma capped_run_admitted:
  "admitted_times (RateLimiter_init hourly_capped_config 0)
        [(Acquire, 0), (Acquire, 0), (Acquire, 1), (Acquire, 3600), (Acquire, 3601)] = [0, 0, 3601]"
  by (simp add: hourly_capped_config_def RateLimiter_init_def
      RateLimitConfig_default_def acquire_def acquire_token_def is_in_backoff_def Let_def)

theorem hourly_window_bound_and_refusal_witness:
  "sorted ((0::rat) # map snd [(Acquire, 0), (Acquire, 0), (Acquire, 1), (Acquire, 3600), (Acquire, 3601::rat)])
   \<and> admitted_times (RateLimiter_init hourly_capped_config 0)
        [(Acquire, 0), (Acquire, 0), (Acquire, 1), (Acquire, 3600), (Acquire, 3601)] = [0, 0, 3601]
   \<and> is_in_backoff full_window_limiter 1 = Inr False
   \<and> sorted (request_times full_window_limiter)
   \<and> requests_per_hour (config full_window_limiter)
        \<le> int (length (popleft_older (1 - 3600) (request_times full_window_limiter)))
   \<and> fst (acquire full_window_limiter 1) = Inr False
   \<and> is_in_backoff overflowing_limiter 1 = Inl OverflowError
   \<and> fst (acquire overflowing_limiter 1) = Inl OverflowError"
proof -
  have ov: "is_in_backoff overflowing_limiter 1 = Inl OverflowError"
    by (simp add: overflowing_limiter_def run_failures RateLimiter_init_def
      RateLimitConfig_default_def get_backoff_time_def float_pow_def is_in_backoff_def)
  have fw: "is_in_backoff full_window_limiter 1 = Inr False"
    "sorted (request_times full_window_limiter)"
    "requests_per_hour (config full_window_limiter)
        \<le> int (length (popleft_older (1 - 3600) (request_times full_window_limiter)))"
    by (simp_all add: full_window_state is_in_backoff_def hourly_capped_config_def)
  from hourly_window_bound_and_refusal [of 0
      "[(Acquire, 0), (Acquire, 0), (Acquire, 1), (Acquire, 3600), (Acquire, 3601)]"
      0 hourly_capped_config full_window_limiter 1 OverflowError]
    fw capped_run_admitted
  have a: "fst (acquire full_window_limiter 1) = Inr False" by simp
  from hourly_window_bound_and_refusal [of 0
      "[(Acquire, 0), (Acquire, 0), (Acquire, 1), (Acquire, 3600), (Acquire, 3601)]"
      0 hourly_capped_config overflowing_limiter 1 OverflowError] ov
  have b: "fst (acquire overflowing_limiter 1) = Inl OverflowError" by simp
  from a b ov fw capped_run_admitted show ?thesis by simp
qed

text \<open>
  Claim C6 as stated fails: with two requests allowed per hour and two admitted at time 0,
  the \<open>acquire\<close> at time 1 neither sleeps until an entry ages out nor retries; it returns
  \<^verbatim>\<open>False\<close> without any sleep.
\<close>

theorem hourly_limit_refusal_counterexample:
  "acquire full_window_limiter 1 =
     (Inr False, [],
      \<lparr>config = hourly_capped_config, tokens = 7 / 2, last_refill = 1, request_times = [0, 0],
       consecutive_failures = 0, last_failure_time = 0, refill_rate = 1 / 2\<rparr>)"
  by (simp add: full_window_state hourly_capped_config_def RateLimitConfig_default_def acquire_def
      acquire_token_def is_in_backoff_def Let_def refill_tokens_def check_hourly_limit_def)

subsection \<open>The wrappers\<close>

text \<open>
  Claim C10.  When \<open>acquire\<close> does not admit the call, \<open>with_rate_limit\<close> and the wrapper
  made by \<open>rate_limited\<close> return \<^verbatim>\<open>None\<close> and leave the world as it was, whatever the
  callable is: the callable is not invoked.  The same \<^verbatim>\<open>None\<close> comes back when the call is
  admitted and the callable itself returns \<^verbatim>\<open>None\<close>.
\<close>

theorem rate_limited_call_dropped:
  "fst (global_acquire g service t_create t_acquire) = Inr False \<Longrightarrow>
   with_rate_limit g service func w t_create t_acquire t_failure =
     (Inr None, fst (snd (global_acquire g service t_create t_acquire)),
      snd (snd (global_acquire g service t_create t_acquire)), w)
   \<and> rate_limited service func g w t_create t_acquire t_failure =
     (Inr None, fst (snd (global_acquire g service t_create t_acquire)),
      snd (snd (global_acquire g service t_create t_acquire)), w)
   \<and> with_rate_limit g service func' w t_create t_acquire t_failure =
       with_rate_limit g service func w t_create t_acquire t_failure
   \<and> (fst (global_acquire g' service t_create t_acquire) = Inr True \<and> fst (func w) = Inr None \<longrightarrow>
        fst (with_rate_limit g' service func w t_create t_acquire t_failure) = Inr None
        \<and> fst (rate_limited service func g' w t_create t_acquire t_failure) = Inr None)"
  by (cases "global_acquire g service t_create t_acquire"; cases "global_acquire g' service t_create t_acquire"; cases "func w")
     (auto simp: with_rate_limit_def rate_limited_def split: sum.splits bool.splits prod.splits)

lemma backed_off_acquire:
  "global_acquire backed_off_registry ''linkedin'' 1 1 = (Inr False, [4], backed_off_registry)"
  by (simp add: backed_off_registry_def global_acquire_def get_limiter_def GlobalRateLimiter_init_def
      RateLimitConfig_default_def RateLimiter_init_def acquire_def acquire_token_def is_in_backoff_def
      get_backoff_time_def float_pow_def
      global_record_failure_def record_failure_def Let_def refill_tokens_def check_hourly_limit_def)

theorem rate_limited_call_dropped_witness:
  "fst (global_acquire backed_off_registry ''linkedin'' 1 1) = Inr False
   \<and> with_rate_limit backed_off_registry ''linkedin'' counting_callable 0 1 1 1
       = (Inr None, [4], backed_off_registry, 0)
   \<and> fst (global_acquire GlobalRateLimiter_init ''linkedin'' 0 0) = Inr True
   \<and> fst (with_rate_limit GlobalRateLimiter_init ''linkedin'' (\<lambda>n::nat. (Inr (None :: int option), n + 1)) 0 0 0 0) = Inr None"
  using rate_limited_call_dropped [of backed_off_registry "''linkedin''" 1 1 counting_callable 0 1 counting_callable GlobalRateLimiter_init]
  by (simp add: backed_off_acquire) (simp add: with_rate_limit_def global_acquire_def get_limiter_def GlobalRateLimiter_init_def
      RateLimitConfig_default_def RateLimiter_init_def acquire_def acquire_token_def is_in_backoff_def Let_def refill_tokens_def check_hourly_limit_def)

section \<open>Properties of the orchestrator\<close>

subsection \<open>The pipeline, case by case\<close>

lemma then_stage_simps [simp]:
  "then_stage (None, jr, cs) en stage = (if en then stage jr cs else (None, jr, cs))"
  "then_stage (Some msg, jr, cs) en stage = (Some msg, jr, cs)"
  by (simp_all add: then_stage_def)

lemma then_stage_keeps:
  assumes "\<And>jr cs. P jr \<Longrightarrow> P (fst (snd (stage jr cs)))" and "P (fst (snd r))"
  shows "P (fst (snd (then_stage r en stage)))"
  using assms by (cases r; cases "fst r") (auto simp: then_stage_def)

lemma then_stage_returns:
  assumes "\<And>jr cs. fst (stage jr cs) = None" and "fst r = None"
  shows "fst (then_stage r en stage) = None"
  using assms by (cases r) (auto simp: then_stage_def)

lemma step_update_fields [simp]:
  "filter_result (start_step jr n) = filter_result jr"
  "overall_status (start_step jr n) = overall_status jr"
  "customization_result (start_step jr n) = customization_result jr"
  "contact_result (start_step jr n) = contact_result jr"
  "email_results (start_step jr n) = email_results jr"
  "document_package (start_step jr n) = document_package jr"
  "filter_result (complete_step jr n) = filter_result jr"
  "overall_status (complete_step jr n) = overall_status jr"
  "filter_result (fail_step jr n msg) = filter_result jr"
  "overall_status (fail_step jr n msg) = overall_status jr"
  by (simp_all add: start_step_def complete_step_def fail_step_def)

lemma resume_keeps:
  "keeps_filter fr st jr \<Longrightarrow> keeps_filter fr st (fst (snd (execute_resume_customization_step env jr cs)))"
  by (simp add: keeps_filter_def execute_resume_customization_step_def Let_def
      split: option.splits call.splits)

lemma contact_keeps:
  "keeps_filter fr st jr \<Longrightarrow> keeps_filter fr st (fst (snd (execute_contact_finding_step env jr cs)))"
  by (simp add: keeps_filter_def execute_contact_finding_step_def Let_def
      split: option.splits call.splits)

lemma email_keeps:
  "keeps_filter fr st jr \<Longrightarrow> keeps_filter fr st (fst (snd (execute_email_generation_step env jr cs)))"
  by (simp add: keeps_filter_def execute_email_generation_step_def Let_def
      split: option.splits call.splits prod.splits)

lemma document_keeps:
  "keeps_filter fr st jr \<Longrightarrow> keeps_filter fr st (fst (snd (execute_document_generation_step env jr cs)))"
  by (simp add: keeps_filter_def execute_document_generation_step_def Let_def
      split: option.splits call.splits)

lemma stages_return:
  "fst (execute_filtering_step env crit jr cs) = None"
  "fst (execute_resume_customization_step env jr cs) = None"
  "fst (execute_contact_finding_step env jr cs) = None"
  "fst (execute_email_generation_step env jr cs) = None"
  "fst (execute_document_generation_step env jr cs) = None"
  by (auto simp: execute_filtering_step_def execute_resume_customization_step_def
      execute_contact_finding_step_def execute_email_generation_step_def
      execute_document_generation_step_def Let_def
      split: option.splits call.splits list.splits prod.splits)

lemma later_stages_keep:
  "keeps_filter fr st jr \<Longrightarrow> keeps_filter fr st (fst (snd (later_stages env request jr cs)))"
  unfolding later_stages_def
  by (intro then_stage_keeps [where P = "keeps_filter fr st"] resume_keeps contact_keeps email_keeps document_keeps)
     simp_all

lemma later_stages_return: "fst (later_stages env request jr cs) = None"
  unfolding later_stages_def
  by (intro then_stage_returns stages_return) simp_all

lemma pipeline_body_unfold:
  "pipeline_body env request jr0 =
     (case then_stage (None, jr0, []) (enable_filtering request)
             (execute_filtering_step env (filter_criteria request)) of
        (Some msg, jr, cs) \<Rightarrow> (Some msg, jr, cs)
      | (None, jr1, cs1) \<Rightarrow>
          (if enable_filtering request \<and> filter_result jr1 = Some ''reject''
           then (None, jr1\<lparr>overall_status := SKIPPED\<rparr>, cs1)
           else
             (case later_stages env request jr1 cs1 of
                (Some msg, jr, cs) \<Rightarrow> (Some msg, jr, cs)
              | (None, jr5, cs5) \<Rightarrow>
                  (None,
                   jr5\<lparr>overall_status := (if failed_steps jr5 \<noteq> [] then FAILED else COMPLETED)\<rparr>,
                   cs5))))"
  by (simp only: pipeline_body_def later_stages_def)

lemma failed_steps_overall [simp]:
  "failed_steps (jr\<lparr>overall_status := st\<rparr>) = failed_steps jr"
  by (simp add: failed_steps_def)

text \<open>How a run of the pipeline body ends.\<close>

lemma init_fields [simp]:
  "filter_result (JobProcessingResult_init jid t c st ss) = None"
  "overall_status (JobProcessingResult_init jid t c st ss) = st"
  "steps (JobProcessingResult_init jid t c st ss) = ss"
  by (simp_all add: JobProcessingResult_init_def)

lemma dict_set_twice [simp]: "dict_set (dict_set kvs k v) k v' = dict_set kvs k v'"
  by (induction kvs) auto

lemma dict_set_keys:
  "map fst (dict_set kvs k v) = (if k \<in> set (map fst kvs) then map fst kvs else map fst kvs @ [k])"
proof (induction kvs)
  case Nil
  then show ?case by simp
next
  case (Cons a kvs)
  obtain k' v' where a: "a = (k', v')" by (cases a)
  show ?case
  proof (cases "k' = k")
    case True
    then show ?thesis by (simp add: a)
  next
    case False
    with Cons show ?thesis by (simp add: a)
  qed
qed

lemma dict_set_lookup: "map_of (dict_set kvs k v) = (map_of kvs)(k \<mapsto> v)"
  by (induction kvs) auto

lemma filtering_decided:
  assumes "execute_filtering_step env crit jr0 cs0 = (None, jr1, cs1)"
    and "filter_result jr0 = None" and "filter_result jr1 \<noteq> None"
  shows "steps jr1 = dict_set (steps jr0) ''filtering''
            \<lparr>name = ''filtering'', status = COMPLETED, error_message = None\<rparr>
     \<and> customization_result jr1 = customization_result jr0
     \<and> contact_result jr1 = contact_result jr0
     \<and> email_results jr1 = email_results jr0
     \<and> document_package jr1 = document_package jr0
     \<and> filter later_stage_call cs1 = filter later_stage_call cs0"
  using assms
  by (auto simp: execute_filtering_step_def Let_def start_step_def complete_step_def fail_step_def
      split: option.splits call.splits list.splits if_splits)

text \<open>
  The two ways through the pipeline body: the filter rejects and the body returns at once,
  or the later stages run and the overall status is read off the step records.
\<close>

lemma pipeline_body_split:
  assumes "filter_result jr0 = None"
  obtains (rejected) jr1 cs1 where
      "execute_filtering_step env (filter_criteria request) jr0 [] = (None, jr1, cs1)"
      "filter_result jr1 = Some ''reject''"
      "pipeline_body env request jr0 = (None, jr1\<lparr>overall_status := SKIPPED\<rparr>, cs1)"
  | (finished) jr1 cs1 jr5 cs5 where
      "then_stage (None, jr0, []) (enable_filtering request)
         (execute_filtering_step env (filter_criteria request)) = (None, jr1, cs1)"
      "filter_result jr1 \<noteq> Some ''reject''"
      "later_stages env request jr1 cs1 = (None, jr5, cs5)"
      "filter_result jr5 = filter_result jr1"
      "pipeline_body env request jr0 =
         (None, jr5\<lparr>overall_status := (if failed_steps jr5 \<noteq> [] then FAILED else COMPLETED)\<rparr>, cs5)"
proof -
  let ?r1 = "then_stage (None, jr0, []) (enable_filtering request)
               (execute_filtering_step env (filter_criteria request))"
  have "fst ?r1 = None" by (rule then_stage_returns) (simp_all add: stages_return)
  then obtain jr1 cs1 where r1: "?r1 = (None, jr1, cs1)" by (cases ?r1) auto
  show thesis
  proof (cases "enable_filtering request \<and> filter_result jr1 = Some ''reject''")
    case True
    with r1 have "execute_filtering_step env (filter_criteria request) jr0 [] = (None, jr1, cs1)"
      by simp
    moreover from True r1 have "pipeline_body env request jr0 = (None, jr1\<lparr>overall_status := SKIPPED\<rparr>, cs1)"
      by (simp add: pipeline_body_unfold)
    ultimately show thesis using True by (intro rejected [of jr1 cs1]) simp_all
  next
    case False
    have nr: "filter_result jr1 \<noteq> Some ''reject''"
    proof (cases "enable_filtering request")
      case True
      with False show ?thesis by simp
    next
      case off: False
      with r1 have "jr1 = jr0" by simp
      with assms show ?thesis by simp
    qed
    have "fst (later_stages env request jr1 cs1) = None" by (rule later_stages_return)
    then obtain jr5 cs5 where r5: "later_stages env request jr1 cs1 = (None, jr5, cs5)"
      by (cases "later_stages env request jr1 cs1") auto
    have "keeps_filter (filter_result jr1) (overall_status jr1) (fst (snd (later_stages env request jr1 cs1)))"
      by (rule later_stages_keep) (simp add: keeps_filter_def)
    with r5 have fr5: "filter_result jr5 = filter_result jr1" by (simp add: keeps_filter_def)
    have "pipeline_body env request jr0 =
        (None, jr5\<lparr>overall_status := (if failed_steps jr5 \<noteq> [] then FAILED else COMPLETED)\<rparr>, cs5)"
      using r1 r5 False
      by (cases "enable_filtering request") (simp_all add: pipeline_body_unfold)
    with r1 nr r5 fr5 show thesis by (intro finished [of jr1 cs1 jr5 cs5])
  qed
qed

lemma pipeline_body_returns: "fst (pipeline_body env request jr0) = None"
proof -
  let ?r1 = "then_stage (None, jr0, []) (enable_filtering request)
               (execute_filtering_step env (filter_criteria request))"
  have "fst ?r1 = None" by (rule then_stage_returns) (simp_all add: stages_return)
  then obtain jr1 cs1 where r1: "?r1 = (None, jr1, cs1)" by (cases ?r1) auto
  have "fst (later_stages env request jr1 cs1) = None" by (rule later_stages_return)
  then obtain jr5 cs5 where r5: "later_stages env request jr1 cs1 = (None, jr5, cs5)"
    by (cases "later_stages env request jr1 cs1") auto
  from r1 r5 show ?thesis
    by (cases "enable_filtering request") (simp_all add: pipeline_body_unfold)
qed

text \<open>What \<open>process_single_job\<close> returns, by how the job data came back.\<close>

lemma process_single_job_cases:
  assumes "process_single_job env request jid = Inr (jr, cs)"
  obtains (not_found)
      "jr = JobProcessingResult_init jid ''Unknown'' ''Unknown'' FAILED
              [(''data_loading'',
                \<lparr>name = ''data_loading'', status = FAILED, error_message = Some ''Job not found''\<rparr>)]"
      "cs = []"
  | (found) d where "jobs_row env = Row d"
      "pipeline_body env request (JobProcessingResult_init jid (title d) (company d) IN_PROGRESS [])
         = (None, jr, cs)"
proof (cases "jobs_row env")
  case ConnectFails
  with assms show ?thesis by (simp add: process_single_job_def)
next
  case QueryFails
  with assms show ?thesis by (intro not_found) (auto simp: process_single_job_def)
next
  case NoRow
  with assms show ?thesis by (intro not_found) (auto simp: process_single_job_def)
next
  case (Row d)
  let ?b = "pipeline_body env request (JobProcessingResult_init jid (title d) (company d) IN_PROGRESS [])"
  have "fst ?b = None" by (rule pipeline_body_returns)
  then obtain jr' cs' where b: "?b = (None, jr', cs')" by (cases ?b) auto
  with assms Row have "jr = jr'" "cs = cs'" by (simp_all add: process_single_job_def)
  with b Row show ?thesis by (intro found [of d]) simp_all
qed

lemma rejected_job_shape:
  assumes "process_single_job env request jid = Inr (jr, cs)"
    and "filter_result jr = Some ''reject''"
  shows "overall_status jr = SKIPPED
     \<and> steps jr = [(''filtering'', \<lparr>name = ''filtering'', status = COMPLETED, error_message = None\<rparr>)]
     \<and> customization_result jr = None \<and> contact_result jr = None
     \<and> email_results jr = [] \<and> document_package jr = None
     \<and> filter later_stage_call cs = []"
  using assms(1)
proof (cases rule: process_single_job_cases)
  case not_found
  with assms(2) show ?thesis by simp
next
  case (found d)
  let ?jr0 = "JobProcessingResult_init jid (title d) (company d) IN_PROGRESS []"
  have "filter_result ?jr0 = None" by simp
  then show ?thesis
  proof (cases rule: pipeline_body_split [where env = env and request = request])
    case (rejected jr1 cs1)
    with found(2) have jr: "jr = jr1\<lparr>overall_status := SKIPPED\<rparr>" and cs: "cs = cs1" by auto
    from filtering_decided [OF rejected(1)] rejected(2)
    have "steps jr1 = [(''filtering'', \<lparr>name = ''filtering'', status = COMPLETED, error_message = None\<rparr>)]"
      and "customization_result jr1 = None" and "contact_result jr1 = None"
      and "email_results jr1 = []" and "document_package jr1 = None"
      and "filter later_stage_call cs1 = []"
      by (simp_all add: JobProcessingResult_init_def)
    with jr cs show ?thesis by simp
  next
    case (finished jr1 cs1 jr5 cs5)
    with found(2) have "filter_result jr = filter_result jr1" by auto
    with finished(2) assms(2) show ?thesis by simp
  qed
qed

lemma failed_steps_empty:
  "failed_steps jr = [] \<longleftrightarrow> FAILED \<notin> (status \<circ> snd) ` set (steps jr)"
proof -
  have "failed_steps jr = [] \<longleftrightarrow> (\<forall>x \<in> set (steps jr). status (snd x) \<noteq> FAILED)"
    by (simp add: failed_steps_def filter_empty_conv)
  also have "\<dots> \<longleftrightarrow> FAILED \<notin> (status \<circ> snd) ` set (steps jr)"
    by force
  finally show ?thesis .
qed

lemma returned_job_status:
  assumes "process_single_job env request jid = Inr (jr, cs)"
  shows "overall_status jr \<in> {COMPLETED, FAILED, SKIPPED}
     \<and> (overall_status jr = SKIPPED \<longleftrightarrow> filter_result jr = Some ''reject'')
     \<and> (overall_status jr = FAILED \<longleftrightarrow> FAILED \<in> (status \<circ> snd) ` set (steps jr))
     \<and> (overall_status jr = COMPLETED \<longleftrightarrow>
          filter_result jr \<noteq> Some ''reject'' \<and> FAILED \<notin> (status \<circ> snd) ` set (steps jr))"
proof (cases "filter_result jr = Some ''reject''")
  case True
  from rejected_job_shape [OF assms True] True show ?thesis by simp
next
  case False
  from assms show ?thesis
  proof (cases rule: process_single_job_cases)
    case not_found
    then show ?thesis by simp
  next
    case (found d)
    let ?jr0 = "JobProcessingResult_init jid (title d) (company d) IN_PROGRESS []"
    have "filter_result ?jr0 = None" by simp
    then show ?thesis
    proof (cases rule: pipeline_body_split [where env = env and request = request])
      case (rejected jr1 cs1)
      with found(2) have "filter_result jr = Some ''reject''" by auto
      with False show ?thesis by simp
    next
      case (finished jr1 cs1 jr5 cs5)
      with found(2)
      have jr: "jr = jr5\<lparr>overall_status := (if failed_steps jr5 \<noteq> [] then FAILED else COMPLETED)\<rparr>"
        by auto
      then have "steps jr = steps jr5" by simp
      with jr False failed_steps_empty [of jr5] show ?thesis by auto
    qed
  qed
qed

subsection \<open>The scenarios, evaluated\<close>

lemma happy_run:
  "process_single_job happy_env (default_request [1, 2, 3]) 3 =
     Inr (completed_job_result,
          [GetExistingFilterResult, LoadDefaultFilterCriteria, FilterJobsBatch ''default'',
           GetCustomizationForJob, CustomizeResumeForJob, FindContactsForCompany,
           GenerateEmail ''alice'' (Some ''resume''), GenerateEmail ''bob'' (Some ''resume''),
           GenerateDocumentsForJob ''resume''])"
  by (simp add: process_single_job_def pipeline_body_def happy_env_def default_request_def
      completed_job_result_def JobProcessingResult_init_def execute_filtering_step_def
      execute_resume_customization_step_def execute_contact_finding_step_def
      execute_email_generation_step_def execute_document_generation_step_def
      start_step_def complete_step_def fail_step_def failed_steps_def Let_def)

lemma resume_failing_run:
  "process_single_job resume_failing_env (default_request [1, 2, 3]) 2 =
     Inr (resume_failed_job_result,
          [GetExistingFilterResult, LoadDefaultFilterCriteria, FilterJobsBatch ''default'',
           GetCustomizationForJob, CustomizeResumeForJob, FindContactsForCompany,
           GenerateEmail ''alice'' None, GenerateEmail ''bob'' None])"
  by (simp add: process_single_job_def pipeline_body_def resume_failing_env_def happy_env_def default_request_def
      resume_failed_job_result_def JobProcessingResult_init_def execute_filtering_step_def
      execute_resume_customization_step_def execute_contact_finding_step_def
      execute_email_generation_step_def execute_document_generation_step_def
      start_step_def complete_step_def fail_step_def failed_steps_def Let_def)

lemma rejecting_run:
  "process_single_job rejecting_env (default_request ids) 1 =
     Inr (rejected_job_result,
          [GetExistingFilterResult, LoadDefaultFilterCriteria, FilterJobsBatch ''default''])"
  by (simp add: process_single_job_def pipeline_body_def rejecting_env_def happy_env_def default_request_def
      rejected_job_result_def JobProcessingResult_init_def execute_filtering_step_def
      start_step_def complete_step_def fail_step_def failed_steps_def Let_def)

lemma db_down_run:
  "process_single_job db_down_env (default_request ids) 1 = Inl UnboundLocalError"
  by (simp add: process_single_job_def db_down_env_def happy_env_def)

subsection \<open>Overall status\<close>

text \<open>
  Claim C5.  The overall status of every job result that \<open>process_single_job\<close> returns is
  Completed, Failed or Skipped.  It is Skipped exactly when the filter decision is
  \<^verbatim>\<open>reject\<close>, Failed exactly when some step record has status Failed, and Completed
  exactly when the job was not rejected and no step record has status Failed.  So a job that
  runs to the end of its pipeline is Completed if no step record is Failed and Failed
  otherwise.
\<close>

theorem overall_status_of_returned_job:
  assumes "process_single_job env request jid = Inr (jr, cs)"
  shows "overall_status jr \<in> {COMPLETED, FAILED, SKIPPED}
     \<and> (overall_status jr = SKIPPED \<longleftrightarrow> filter_result jr = Some ''reject'')
     \<and> (overall_status jr = FAILED \<longleftrightarrow> FAILED \<in> (status \<circ> snd) ` set (steps jr))
     \<and> (overall_status jr = COMPLETED \<longleftrightarrow>
          filter_result jr \<noteq> Some ''reject'' \<and> FAILED \<notin> (status \<circ> snd) ` set (steps jr))"
  using assms by (rule returned_job_status)

theorem overall_status_of_returned_job_witness:
  "process_single_job resume_failing_env (default_request [1, 2, 3]) 2 =
     Inr (resume_failed_job_result,
          [GetExistingFilterResult, LoadDefaultFilterCriteria, FilterJobsBatch ''default'',
           GetCustomizationForJob, CustomizeResumeForJob, FindContactsForCompany,
           GenerateEmail ''alice'' None, GenerateEmail ''bob'' None])
   \<and> overall_status resume_failed_job_result = FAILED
   \<and> FAILED \<in> (status \<circ> snd) ` set (steps resume_failed_job_result)
   \<and> filter_result resume_failed_job_result \<noteq> Some ''reject''"
proof -
  have res: "filter_result resume_failed_job_result \<noteq> Some ''reject''"
    "overall_status resume_failed_job_result = FAILED"
    by (simp_all add: resume_failed_job_result_def)
  from overall_status_of_returned_job [OF resume_failing_run] res
  have "FAILED \<in> (status \<circ> snd) ` set (steps resume_failed_job_result)" by simp
  with res resume_failing_run show ?thesis by simp
qed

subsection \<open>Filter rejection\<close>




subsection \<open>Exceptions at the per-job boundary\<close>

lemma default_request_fields [simp]:
  "job_ids (default_request ids) = ids"
  "max_concurrent_jobs (default_request ids) = 3"
  by (simp_all add: default_request_def)

lemma gather_tasks_length: "length (gather_tasks benv request) = length (job_ids request)"
  by (simp add: gather_tasks_def)

lemma gather_tasks_nth:
  "i < length (job_ids request) \<Longrightarrow>
     gather_tasks benv request ! i =
       (case process_single_job (job_envs benv i) request (job_ids request ! i) of
          Inl e \<Rightarrow> Inl e
        | Inr (jr, cs) \<Rightarrow> Inr (job_ids request ! i, jr))"
  by (simp add: gather_tasks_def nth_enumerate_eq)

lemma process_single_job_returns:
  "jobs_row env \<noteq> ConnectFails \<Longrightarrow> \<exists>jr cs. process_single_job env request jid = Inr (jr, cs)"
proof -
  assume "jobs_row env \<noteq> ConnectFails"
  then obtain found where f: "get_job_data (jobs_row env) = Inr found"
    by (cases "jobs_row env") simp_all
  show ?thesis
  proof (cases found)
    case None
    with f show ?thesis by (simp add: process_single_job_def)
  next
    case (Some d)
    let ?b = "pipeline_body env request (JobProcessingResult_init jid (title d) (company d) IN_PROGRESS [])"
    have "fst ?b = None" by (rule pipeline_body_returns)
    then obtain jr cs where "?b = (None, jr, cs)" by (cases ?b) auto
    with f Some show ?thesis by (simp add: process_single_job_def)
  qed
qed

lemma db_down_raises: "process_single_job db_down_env request jid = Inl UnboundLocalError"
  by (simp add: process_single_job_def db_down_env_def happy_env_def)

lemma db_down_gather:
  "gather_tasks db_down_batch_env (default_request [1, 2, 3]) =
     [Inr (1, rejected_job_result), Inl UnboundLocalError, Inr (3, completed_job_result)]"
  using rejecting_run [of "[1, 2, 3]"] db_down_raises happy_run
  by (simp add: gather_tasks_def db_down_batch_env_def)

text \<open>
  Claim C4.  The stages catch their own exceptions and the pipeline body sits in a
  \<^verbatim>\<open>try\<close> block, but \<^verbatim>\<open>_get_job_data\<close> is called before that block, and its
  \<^verbatim>\<open>finally\<close> clause reads \<^verbatim>\<open>conn\<close>, which is unbound when
  \<^verbatim>\<open>get_connection()\<close> failed.  With a database that refuses the connection while the
  second of three jobs loads its data, \<open>process_single_job\<close> raises \<^verbatim>\<open>UnboundLocalError\<close>
  to the batch orchestrator instead of returning a Failed job result.  The sibling jobs run
  and the batch returns, with the second job counted as failed and absent from the job
  results.
\<close>

theorem job_data_failure_reaches_orchestrator:
  "get_job_data (jobs_row db_down_env) = Inl UnboundLocalError
   \<and> process_single_job db_down_env (default_request [1, 2, 3]) 2 = Inl UnboundLocalError
   \<and> gather_tasks db_down_batch_env (default_request [1, 2, 3]) =
       [Inr (1, rejected_job_result), Inl UnboundLocalError, Inr (3, completed_job_result)]
   \<and> process_jobs_batch db_down_batch_env (default_request [1, 2, 3]) = Returned db_down_batch_result
   \<and> map fst (job_results db_down_batch_result) = [1, 3]"
proof -
  have st: "overall_status rejected_job_result = SKIPPED"
    "overall_status completed_job_result = COMPLETED"
    by (simp_all add: rejected_job_result_def completed_job_result_def)
  have "save_connects db_down_batch_env 0" by (simp add: db_down_batch_env_def)
  with st have "process_jobs_batch db_down_batch_env (default_request [1, 2, 3]) = Returned db_down_batch_result"
    by (simp add: process_jobs_batch_def db_down_gather save_batch_result_def db_down_batch_result_def)
  moreover have "get_job_data (jobs_row db_down_env) = Inl UnboundLocalError"
    by (simp add: db_down_env_def happy_env_def)
  ultimately show ?thesis
    using db_down_raises db_down_gather by (simp add: db_down_batch_result_def)
qed

subsection \<open>Batch counters\<close>

lemma process_results_counts:
  "\<exists>results'. process_results ts (results, s, f) =
     (results',
      s + length (filter (\<lambda>t. task_status t = Some COMPLETED) ts),
      f + length (filter (\<lambda>t. task_status t \<noteq> Some COMPLETED) ts))"
proof (induction ts arbitrary: results s f)
  case Nil
  then show ?case by simp
next
  case (Cons t ts)
  show ?case
  proof (cases t)
    case (Inl e)
    with Cons [of results s "f + 1"] show ?thesis by auto
  next
    case (Inr p)
    obtain jid jr where p: "p = (jid, jr)" by (cases p)
    show ?thesis
    proof (cases "overall_status jr = COMPLETED")
      case True
      with Cons [of "dict_set results jid jr" "s + 1" f] Inr p show ?thesis by auto
    next
      case False
      with Cons [of "dict_set results jid jr" s "f + 1"] Inr p show ?thesis by auto
    qed
  qed
qed

lemma gathered_status:
  assumes "t \<in> set (gather_tasks benv request)"
  shows "task_status t \<in> {None, Some COMPLETED, Some FAILED, Some SKIPPED}"
proof -
  from assms obtain i jid where
    t: "t = (case process_single_job (job_envs benv i) request jid of
               Inl e \<Rightarrow> Inl e | Inr (jr, cs) \<Rightarrow> Inr (jid, jr))"
    by (auto simp: gather_tasks_def)
  show ?thesis
  proof (cases "process_single_job (job_envs benv i) request jid")
    case (Inl e)
    with t show ?thesis by simp
  next
    case (Inr p)
    obtain jr cs where p: "p = (jr, cs)" by (cases p)
    from Inr p have "process_single_job (job_envs benv i) request jid = Inr (jr, cs)" by simp
    then have "overall_status jr \<in> {COMPLETED, FAILED, SKIPPED}"
      by (rule returned_job_status [THEN conjunct1])
    with t Inr p show ?thesis by auto
  qed
qed

lemma not_completed_split:
  assumes "\<forall>t \<in> set ts. task_status t \<in> {None, Some COMPLETED, Some FAILED, Some SKIPPED}"
  shows "length (filter (\<lambda>t. task_status t \<noteq> Some COMPLETED) ts) =
         length (filter (\<lambda>t. task_status t = Some FAILED) ts)
         + length (filter (\<lambda>t. task_status t = Some SKIPPED) ts)
         + length (filter (\<lambda>t. task_status t = None) ts)"
  using assms by (induction ts) auto

lemma batch_normal_path:
  assumes "1 \<le> max_concurrent_jobs request" and "save_connects benv 0"
  shows "\<exists>r. process_jobs_batch benv request = Returned r
     \<and> total_jobs r = length (job_ids request)
     \<and> total_jobs r = successful_jobs r + failed_jobs r
     \<and> successful_jobs r = length (filter (\<lambda>t. task_status t = Some COMPLETED) (gather_tasks benv request))
     \<and> failed_jobs r =
         length (filter (\<lambda>t. task_status t = Some FAILED) (gather_tasks benv request))
         + length (filter (\<lambda>t. task_status t = Some SKIPPED) (gather_tasks benv request))
         + length (filter (\<lambda>t. task_status t = None) (gather_tasks benv request))"
proof -
  let ?ts = "gather_tasks benv request"
  let ?s = "length (filter (\<lambda>t. task_status t = Some COMPLETED) ?ts)"
  let ?f = "length (filter (\<lambda>t. task_status t \<noteq> Some COMPLETED) ?ts)"
  from process_results_counts [of ?ts "[]" 0 0]
  obtain results' where pr: "process_results ?ts ([], 0, 0) = (results', ?s, ?f)" by auto
  have sum: "?s + ?f = length (job_ids request)"
    using sum_length_filter_compl [of "\<lambda>t. task_status t = Some COMPLETED" ?ts]
    by (simp add: gather_tasks_length)
  have split: "?f = length (filter (\<lambda>t. task_status t = Some FAILED) ?ts)
         + length (filter (\<lambda>t. task_status t = Some SKIPPED) ?ts)
         + length (filter (\<lambda>t. task_status t = None) ?ts)"
    by (rule not_completed_split) (use gathered_status in blast)
  from assms pr have "process_jobs_batch benv request =
      Returned \<lparr>total_jobs = length (job_ids request), successful_jobs = ?s, failed_jobs = ?f,
                job_results = results',
                batch_overall_status =
                  (if ?s = length (job_ids request) then COMPLETED
                   else if 0 < ?s then COMPLETED else FAILED)\<rparr>"
    by (simp add: process_jobs_batch_def save_batch_result_def)
  with sum split show ?thesis by simp
qed

text \<open>
  Claim C1, as the code has it.  For a batch with at least one concurrent job allowed whose
  result the database takes at the first attempt, \<open>process_jobs_batch\<close> returns, and the
  returned result satisfies \<open>total_jobs = successful_jobs + failed_jobs\<close>, where
  \<open>successful_jobs\<close> counts the tasks whose outcome is Completed and \<open>failed_jobs\<close> counts
  all the others: the outcomes that are Failed, the outcomes that are Skipped, and the tasks
  that raised.  The result has no counter of skipped jobs.
\<close>

theorem batch_counts_add_up:
  assumes "1 \<le> max_concurrent_jobs request" and "save_connects benv 0"
  shows "\<exists>r. process_jobs_batch benv request = Returned r
     \<and> total_jobs r = length (job_ids request)
     \<and> total_jobs r = successful_jobs r + failed_jobs r
     \<and> successful_jobs r = length (filter (\<lambda>t. task_status t = Some COMPLETED) (gather_tasks benv request))
     \<and> failed_jobs r =
         length (filter (\<lambda>t. task_status t = Some FAILED) (gather_tasks benv request))
         + length (filter (\<lambda>t. task_status t = Some SKIPPED) (gather_tasks benv request))
         + length (filter (\<lambda>t. task_status t = None) (gather_tasks benv request))"
  using assms by (rule batch_normal_path)

lemma three_job_gather:
  "gather_tasks three_job_env (default_request [1, 2, 3]) =
     [Inr (1, rejected_job_result), Inr (2, resume_failed_job_result), Inr (3, completed_job_result)]"
  using rejecting_run [of "[1, 2, 3]"] resume_failing_run happy_run
  by (simp add: gather_tasks_def three_job_env_def)

lemma three_job_batch:
  "process_jobs_batch three_job_env (default_request [1, 2, 3]) = Returned three_job_batch_result"
proof -
  have st: "overall_status rejected_job_result = SKIPPED" "overall_status resume_failed_job_result = FAILED"
    "overall_status completed_job_result = COMPLETED"
    by (simp_all add: rejected_job_result_def resume_failed_job_result_def completed_job_result_def)
  have "save_connects three_job_env 0" by (simp add: three_job_env_def)
  with st show ?thesis
    by (simp add: process_jobs_batch_def three_job_gather save_batch_result_def three_job_batch_result_def)
qed

theorem batch_counts_add_up_witness:
  "1 \<le> max_concurrent_jobs (default_request [1, 2, 3]) \<and> save_connects three_job_env 0
   \<and> process_jobs_batch three_job_env (default_request [1, 2, 3]) = Returned three_job_batch_result
   \<and> total_jobs three_job_batch_result = 3
   \<and> successful_jobs three_job_batch_result = 1
   \<and> failed_jobs three_job_batch_result = 2"
proof -
  have h: "1 \<le> max_concurrent_jobs (default_request [1, 2, 3])" "save_connects three_job_env 0"
    by (simp_all add: three_job_env_def)
  from batch_counts_add_up [OF h] three_job_batch h
  show ?thesis by (simp add: three_job_batch_result_def)
qed

lemma rejecting_batch:
  "process_jobs_batch rejecting_batch_env (default_request [1]) = Returned rejected_batch_result"
proof -
  have g: "gather_tasks rejecting_batch_env (default_request [1]) = [Inr (1, rejected_job_result)]"
    using rejecting_run [of "[1]"] by (simp add: gather_tasks_def rejecting_batch_env_def)
  have "overall_status rejected_job_result = SKIPPED" by (simp add: rejected_job_result_def)
  moreover have "save_connects rejecting_batch_env 0" by (simp add: rejecting_batch_env_def)
  ultimately show ?thesis
    by (simp add: process_jobs_batch_def g save_batch_result_def rejected_batch_result_def)
qed

text \<open>
  Claim C1 as stated fails: for a batch of one job that the filter rejects, the returned result
  has \<open>failed_jobs = 1\<close> although no outcome is Failed, and adding the one Skipped outcome
  to \<open>successful_jobs + failed_jobs\<close> gives two for a total of one.
\<close>

theorem batch_counts_counterexample:
  "process_jobs_batch rejecting_batch_env (default_request [1]) = Returned rejected_batch_result
   \<and> failed_jobs rejected_batch_result = 1
   \<and> count_outcomes FAILED rejected_batch_result = 0
   \<and> count_outcomes SKIPPED rejected_batch_result = 1
   \<and> total_jobs rejected_batch_result
       \<noteq> successful_jobs rejected_batch_result + failed_jobs rejected_batch_result
          + count_outcomes SKIPPED rejected_batch_result"
  using rejecting_batch
  by (simp add: rejected_batch_result_def count_outcomes_def rejected_job_result_def)


subsection \<open>Missing prerequisites\<close>

lemma step_lookup [simp]:
  "map_of (steps (fail_step jr n msg)) n = Some \<lparr>name = n, status = FAILED, error_message = Some msg\<rparr>"
  "map_of (steps (complete_step jr n)) n = Some \<lparr>name = n, status = COMPLETED, error_message = None\<rparr>"
  by (simp_all add: fail_step_def complete_step_def dict_set_lookup)

lemma step_names [simp]:
  "map fst (steps (fail_step (start_step jr n) n msg)) =
     (if n \<in> set (map fst (steps jr)) then map fst (steps jr) else map fst (steps jr) @ [n])"
  "map fst (steps (complete_step (start_step jr n) n)) =
     (if n \<in> set (map fst (steps jr)) then map fst (steps jr) else map fst (steps jr) @ [n])"
  by (simp_all add: fail_step_def complete_step_def start_step_def dict_set_keys)

lemma step_names_upd [simp]:
  "steps (start_step jr n\<lparr>filter_result := a\<rparr>) = steps (start_step jr n)"
  "steps (start_step jr n\<lparr>customization_result := b\<rparr>) = steps (start_step jr n)"
  "steps (start_step jr n\<lparr>contact_result := c\<rparr>) = steps (start_step jr n)"
  "steps (start_step jr n\<lparr>email_results := d\<rparr>) = steps (start_step jr n)"
  "steps (start_step jr n\<lparr>document_package := e\<rparr>) = steps (start_step jr n)"
  by simp_all

lemma email_step_no_contacts:
  assumes "contact_result jr = None \<or> (\<exists>found. contact_result jr = Some found \<and> contacts found = [])"
  shows "execute_email_generation_step env jr cs =
     (None,
      fail_step (start_step jr ''email_generation'') ''email_generation''
        ''No contacts available for email generation'', cs)"
  using assms by (auto simp: execute_email_generation_step_def Let_def)

lemma document_step_no_resume:
  assumes "customization_result jr = None"
  shows "execute_document_generation_step env jr cs =
     (None,
      fail_step (start_step jr ''document_generation'') ''document_generation''
        ''No customized resume available for document generation'', cs)"
  using assms by (simp add: execute_document_generation_step_def Let_def)

lemma generate_emails_all:
  assumes "\<forall>c \<in> set cts. \<exists>e. generate_email env c cust = Returns (Some e)"
  shows "\<exists>new. generate_emails env cust cts emails cs =
           (None, emails @ new, cs @ map (\<lambda>c. GenerateEmail c cust) cts)
         \<and> length new = length cts"
  using assms
proof (induction cts arbitrary: emails cs)
  case Nil
  then show ?case by simp
next
  case (Cons c cts)
  then obtain e where e: "generate_email env c cust = Returns (Some e)" by auto
  from Cons.prems have "\<forall>c \<in> set cts. \<exists>e. generate_email env c cust = Returns (Some e)" by simp
  from Cons.IH [OF this, of "emails @ [e]" "cs @ [GenerateEmail c cust]"]
  obtain new where "generate_emails env cust cts (emails @ [e]) (cs @ [GenerateEmail c cust]) =
           (None, (emails @ [e]) @ new, (cs @ [GenerateEmail c cust]) @ map (\<lambda>c. GenerateEmail c cust) cts)"
    and "length new = length cts" by blast
  with e have "generate_emails env cust (c # cts) emails cs =
           (None, emails @ (e # new), cs @ map (\<lambda>c. GenerateEmail c cust) (c # cts))
         \<and> length (e # new) = length (c # cts)" by simp
  then show ?case by blast
qed

lemma email_step_without_resume:
  assumes "customization_result jr = None"
    and "contact_result jr = Some found" and "contacts found \<noteq> []"
    and "\<forall>c \<in> set (take 3 (contacts found)). \<exists>e. generate_email env c None = Returns (Some e)"
  shows "fst (execute_email_generation_step env jr cs) = None
     \<and> map_of (steps (fst (snd (execute_email_generation_step env jr cs)))) ''email_generation''
         = Some \<lparr>name = ''email_generation'', status = COMPLETED, error_message = None\<rparr>
     \<and> snd (snd (execute_email_generation_step env jr cs))
         = cs @ map (\<lambda>c. GenerateEmail c None) (take 3 (contacts found))"
proof -
  from generate_emails_all [OF assms(4), of "email_results jr" cs]
  obtain new where g: "generate_emails env None (take 3 (contacts found)) (email_results jr) cs =
           (None, email_results jr @ new, cs @ map (\<lambda>c. GenerateEmail c None) (take 3 (contacts found)))"
    and len: "length new = length (take 3 (contacts found))" by blast
  from len assms(3) have "new \<noteq> []" by (cases "contacts found") auto
  with assms(1-3) g show ?thesis
    by (simp add: execute_email_generation_step_def Let_def)
qed

lemma stage_names:
  "map fst (steps (fst (snd (execute_filtering_step env crit jr cs)))) =
       (if ''filtering'' \<in> set (map fst (steps jr)) then map fst (steps jr)
        else map fst (steps jr) @ [''filtering''])"
  "map fst (steps (fst (snd (execute_resume_customization_step env jr cs)))) =
       (if ''resume_customization'' \<in> set (map fst (steps jr)) then map fst (steps jr)
        else map fst (steps jr) @ [''resume_customization''])"
  "map fst (steps (fst (snd (execute_contact_finding_step env jr cs)))) =
       (if ''contact_finding'' \<in> set (map fst (steps jr)) then map fst (steps jr)
        else map fst (steps jr) @ [''contact_finding''])"
  "map fst (steps (fst (snd (execute_email_generation_step env jr cs)))) =
       (if ''email_generation'' \<in> set (map fst (steps jr)) then map fst (steps jr)
        else map fst (steps jr) @ [''email_generation''])"
  "map fst (steps (fst (snd (execute_document_generation_step env jr cs)))) =
       (if ''document_generation'' \<in> set (map fst (steps jr)) then map fst (steps jr)
        else map fst (steps jr) @ [''document_generation''])"
  by (simp_all add: execute_filtering_step_def execute_resume_customization_step_def
      execute_contact_finding_step_def execute_email_generation_step_def
      execute_document_generation_step_def Let_def fail_step_def complete_step_def start_step_def
      dict_set_keys
      split: option.splits call.splits list.splits prod.splits)

lemma then_stage_names:
  assumes "fst r = None"
    and "\<And>jr cs. fst (stage jr cs) = None"
    and "\<And>jr cs. map fst (steps (fst (snd (stage jr cs)))) =
            (if n \<in> set (map fst (steps jr)) then map fst (steps jr) else map fst (steps jr) @ [n])"
  shows "fst (then_stage r en stage) = None
     \<and> map fst (steps (fst (snd (then_stage r en stage)))) =
         (if en \<and> n \<notin> set (map fst (steps (fst (snd r))))
          then map fst (steps (fst (snd r))) @ [n] else map fst (steps (fst (snd r))))"
  using assms by (cases r) (auto simp: then_stage_def)

lemma later_stages_names:
  "map fst (steps (fst (snd (later_stages env request jr cs)))) =
     (let n1 = map fst (steps jr);
          n2 = (if enable_resume_customization request \<and> ''resume_customization'' \<notin> set n1
                then n1 @ [''resume_customization''] else n1);
          n3 = (if enable_contact_finding request \<and> ''contact_finding'' \<notin> set n2
                then n2 @ [''contact_finding''] else n2);
          n4 = (if enable_email_generation request \<and> ''email_generation'' \<notin> set n3
                then n3 @ [''email_generation''] else n3)
      in if enable_document_generation request \<and> ''document_generation'' \<notin> set n4
         then n4 @ [''document_generation''] else n4)"
proof -
  let ?r2 = "then_stage (None, jr, cs) (enable_resume_customization request)
                (execute_resume_customization_step env)"
  let ?r3 = "then_stage ?r2 (enable_contact_finding request) (execute_contact_finding_step env)"
  let ?r4 = "then_stage ?r3 (enable_email_generation request) (execute_email_generation_step env)"
  let ?r5 = "then_stage ?r4 (enable_document_generation request) (execute_document_generation_step env)"
  have 2: "fst ?r2 = None \<and> map fst (steps (fst (snd ?r2))) =
      (if enable_resume_customization request \<and> ''resume_customization'' \<notin> set (map fst (steps (fst (snd (None :: string option, jr, cs)))))
       then map fst (steps (fst (snd (None :: string option, jr, cs)))) @ [''resume_customization'']
       else map fst (steps (fst (snd (None :: string option, jr, cs)))))"
    by (rule then_stage_names) (simp_all only: fst_conv stages_return(2) stage_names(2))
  have 3: "fst ?r3 = None \<and> map fst (steps (fst (snd ?r3))) =
      (if enable_contact_finding request \<and> ''contact_finding'' \<notin> set (map fst (steps (fst (snd ?r2))))
       then map fst (steps (fst (snd ?r2))) @ [''contact_finding'']
       else map fst (steps (fst (snd ?r2))))"
    by (rule then_stage_names) (simp_all only: 2 stages_return(3) stage_names(3))
  have 4: "fst ?r4 = None \<and> map fst (steps (fst (snd ?r4))) =
      (if enable_email_generation request \<and> ''email_generation'' \<notin> set (map fst (steps (fst (snd ?r3))))
       then map fst (steps (fst (snd ?r3))) @ [''email_generation'']
       else map fst (steps (fst (snd ?r3))))"
    by (rule then_stage_names) (simp_all only: 3 stages_return(4) stage_names(4))
  have 5: "fst ?r5 = None \<and> map fst (steps (fst (snd ?r5))) =
      (if enable_document_generation request \<and> ''document_generation'' \<notin> set (map fst (steps (fst (snd ?r4))))
       then map fst (steps (fst (snd ?r4))) @ [''document_generation'']
       else map fst (steps (fst (snd ?r4))))"
    by (rule then_stage_names) (simp_all only: 4 stages_return(5) stage_names(5))
  have eq: "later_stages env request jr cs = ?r5" by (simp only: later_stages_def)
  from 2 have n2: "map fst (steps (fst (snd ?r2))) =
      (if enable_resume_customization request \<and> ''resume_customization'' \<notin> set (map fst (steps jr))
       then map fst (steps jr) @ [''resume_customization''] else map fst (steps jr))"
    by (simp only: snd_conv fst_conv)
  show ?thesis
    unfolding eq Let_def
    using 5 4 3 n2 by (simp only:)
qed

lemma finished_run_names:
  assumes "process_single_job env request jid = Inr (jr, cs)" and "jobs_row env = Row d"
    and "filter_result jr \<noteq> Some ''reject''"
  shows "map fst (steps jr) = enabled_stage_names request"
proof -
  let ?jr0 = "JobProcessingResult_init jid (title d) (company d) IN_PROGRESS []"
  have "fst (pipeline_body env request ?jr0) = None" by (rule pipeline_body_returns)
  then obtain jr'' cs'' where b: "pipeline_body env request ?jr0 = (None, jr'', cs'')"
    by (cases "pipeline_body env request ?jr0") auto
  with assms(1,2) have "jr = jr''" "cs = cs''" by (simp_all add: process_single_job_def)
  with b have found: "pipeline_body env request ?jr0 = (None, jr, cs)" by simp
  have "filter_result ?jr0 = None" by simp
  then show ?thesis
  proof (cases rule: pipeline_body_split [where env = env and request = request])
    case (rejected jr1 cs1)
    with found have "filter_result jr = Some ''reject''" by auto
    with assms(3) show ?thesis by simp
  next
    case (finished jr1 cs1 jr5 cs5)
    let ?r1 = "then_stage (None, ?jr0, []) (enable_filtering request)
               (execute_filtering_step env (filter_criteria request))"
    have "fst ?r1 = None \<and> map fst (steps (fst (snd ?r1))) =
      (if enable_filtering request \<and> ''filtering'' \<notin> set (map fst (steps (fst (snd (None :: string option, ?jr0, [] :: collaborator_call list)))))
       then map fst (steps (fst (snd (None :: string option, ?jr0, [] :: collaborator_call list)))) @ [''filtering'']
       else map fst (steps (fst (snd (None :: string option, ?jr0, [] :: collaborator_call list)))))"
      by (rule then_stage_names) (simp_all only: fst_conv stages_return(1) stage_names(1))
    with finished(1)
    have n1: "map fst (steps jr1) = (if enable_filtering request then [''filtering''] else [])"
      by simp
    from later_stages_names [of env request jr1 cs1] finished(3) n1
    have n5: "map fst (steps jr5) = enabled_stage_names request"
      by (simp add: enabled_stage_names_def Let_def)
    from found finished(5)
    have "jr = jr5\<lparr>overall_status := (if failed_steps jr5 \<noteq> [] then FAILED else COMPLETED)\<rparr>"
      by auto
    with n5 show ?thesis by simp
  qed
qed

text \<open>
  Claim C8.  With no contact found, the email generation stage ends Failed with the error
  ``No contacts available for email generation'' and calls no collaborator; with no
  customized resume, the document generation stage ends Failed with the error ``No customized
  resume available for document generation'' and calls no collaborator.  These two errors
  are how the code reports a missing dependency.  Neither stage raises, and a job that is
  found and not rejected gets a step record for every enabled stage, in pipeline order, so
  execution goes on to the next enabled stage.  Email generation does not need the
  customized resume: with contacts and no resume it calls the email generator with
  \<^verbatim>\<open>None\<close> for the resume, and completes when the emails come back.
\<close>

theorem missing_prerequisite_fails_stage:
  "(contact_result jr = None \<or> (\<exists>found. contact_result jr = Some found \<and> contacts found = []) \<longrightarrow>
      fst (execute_email_generation_step env jr cs) = None
      \<and> map_of (steps (fst (snd (execute_email_generation_step env jr cs)))) ''email_generation''
          = Some \<lparr>name = ''email_generation'', status = FAILED,
                  error_message = Some ''No contacts available for email generation''\<rparr>
      \<and> snd (snd (execute_email_generation_step env jr cs)) = cs)
   \<and> (customization_result jr = None \<longrightarrow>
      fst (execute_document_generation_step env jr cs) = None
      \<and> map_of (steps (fst (snd (execute_document_generation_step env jr cs)))) ''document_generation''
          = Some \<lparr>name = ''document_generation'', status = FAILED,
                  error_message = Some ''No customized resume available for document generation''\<rparr>
      \<and> snd (snd (execute_document_generation_step env jr cs)) = cs)
   \<and> (process_single_job env' request jid = Inr (jr', cs') \<and> jobs_row env' = Row d
        \<and> filter_result jr' \<noteq> Some ''reject'' \<longrightarrow>
      map fst (steps jr') = enabled_stage_names request)
   \<and> (customization_result jr2 = None
        \<and> contact_result jr2 = Some found2 \<and> contacts found2 \<noteq> []
        \<and> (\<forall>c \<in> set (take 3 (contacts found2)). \<exists>e. generate_email env c None = Returns (Some e)) \<longrightarrow>
      fst (execute_email_generation_step env jr2 cs) = None
      \<and> map_of (steps (fst (snd (execute_email_generation_step env jr2 cs)))) ''email_generation''
          = Some \<lparr>name = ''email_generation'', status = COMPLETED, error_message = None\<rparr>
      \<and> snd (snd (execute_email_generation_step env jr2 cs))
          = cs @ map (\<lambda>c. GenerateEmail c None) (take 3 (contacts found2)))"
proof (intro conjI impI)
  assume h: "contact_result jr = None \<or> (\<exists>found. contact_result jr = Some found \<and> contacts found = [])"
  then have eq: "execute_email_generation_step env jr cs =
     (None,
      fail_step (start_step jr ''email_generation'') ''email_generation''
        ''No contacts available for email generation'', cs)"
    by (rule email_step_no_contacts)
  show "fst (execute_email_generation_step env jr cs) = None"
    and "map_of (steps (fst (snd (execute_email_generation_step env jr cs)))) ''email_generation''
          = Some \<lparr>name = ''email_generation'', status = FAILED,
                  error_message = Some ''No contacts available for email generation''\<rparr>"
    and "snd (snd (execute_email_generation_step env jr cs)) = cs"
    by (simp_all add: eq)
next
  assume h: "customization_result jr = None"
  then have eq: "execute_document_generation_step env jr cs =
     (None,
      fail_step (start_step jr ''document_generation'') ''document_generation''
        ''No customized resume available for document generation'', cs)"
    by (rule document_step_no_resume)
  show "fst (execute_document_generation_step env jr cs) = None"
    and "map_of (steps (fst (snd (execute_document_generation_step env jr cs)))) ''document_generation''
          = Some \<lparr>name = ''document_generation'', status = FAILED,
                  error_message = Some ''No customized resume available for document generation''\<rparr>"
    and "snd (snd (execute_document_generation_step env jr cs)) = cs"
    by (simp_all add: eq)
next
  assume "process_single_job env' request jid = Inr (jr', cs') \<and> jobs_row env' = Row d
        \<and> filter_result jr' \<noteq> Some ''reject''"
  then show "map fst (steps jr') = enabled_stage_names request"
    using finished_run_names by blast
next
  assume h: "customization_result jr2 = None
        \<and> contact_result jr2 = Some found2 \<and> contacts found2 \<noteq> []
        \<and> (\<forall>c \<in> set (take 3 (contacts found2)). \<exists>e. generate_email env c None = Returns (Some e))"
  then have all: "fst (execute_email_generation_step env jr2 cs) = None
     \<and> map_of (steps (fst (snd (execute_email_generation_step env jr2 cs)))) ''email_generation''
         = Some \<lparr>name = ''email_generation'', status = COMPLETED, error_message = None\<rparr>
     \<and> snd (snd (execute_email_generation_step env jr2 cs))
         = cs @ map (\<lambda>c. GenerateEmail c None) (take 3 (contacts found2))"
    using email_step_without_resume [of jr2 found2 env cs] by blast
  from all show "fst (execute_email_generation_step env jr2 cs) = None" by simp
  from all show "map_of (steps (fst (snd (execute_email_generation_step env jr2 cs)))) ''email_generation''
          = Some \<lparr>name = ''email_generation'', status = COMPLETED, error_message = None\<rparr>" by simp
  from all show "snd (snd (execute_email_generation_step env jr2 cs))
          = cs @ map (\<lambda>c. GenerateEmail c None) (take 3 (contacts found2))" by simp
qed

theorem missing_prerequisite_fails_stage_witness:
  "contact_result bare_job_result = None
   \<and> map_of (steps (fst (snd (execute_email_generation_step happy_env bare_job_result [])))) ''email_generation''
       = Some \<lparr>name = ''email_generation'', status = FAILED,
               error_message = Some ''No contacts available for email generation''\<rparr>
   \<and> customization_result bare_job_result = None
   \<and> map_of (steps (fst (snd (execute_document_generation_step happy_env bare_job_result [])))) ''document_generation''
       = Some \<lparr>name = ''document_generation'', status = FAILED,
               error_message = Some ''No customized resume available for document generation''\<rparr>
   \<and> process_single_job resume_failing_env (default_request [1, 2, 3]) 2 =
       Inr (resume_failed_job_result,
            [GetExistingFilterResult, LoadDefaultFilterCriteria, FilterJobsBatch ''default'',
             GetCustomizationForJob, CustomizeResumeForJob, FindContactsForCompany,
             GenerateEmail ''alice'' None, GenerateEmail ''bob'' None])
   \<and> jobs_row resume_failing_env = Row \<lparr>title = ''Engineer'', company = ''Acme''\<rparr>
   \<and> filter_result resume_failed_job_result \<noteq> Some ''reject''
   \<and> map fst (steps resume_failed_job_result) = enabled_stage_names (default_request [1, 2, 3])
   \<and> customization_result contacts_only_job_result = None
   \<and> contact_result contacts_only_job_result = Some \<lparr>contacts = [''alice'', ''bob'']\<rparr>
   \<and> contacts \<lparr>contacts = [''alice'', ''bob'']\<rparr> \<noteq> []
   \<and> generate_email happy_env ''alice'' None = Returns (Some ''mail to alice'')
   \<and> generate_email happy_env ''bob'' None = Returns (Some ''mail to bob'')
   \<and> snd (snd (execute_email_generation_step happy_env contacts_only_job_result []))
       = [GenerateEmail ''alice'' None, GenerateEmail ''bob'' None]"
proof -
  have a: "contact_result bare_job_result = None" "customization_result bare_job_result = None"
    by (simp_all add: bare_job_result_def JobProcessingResult_init_def)
  have c: "jobs_row resume_failing_env = Row \<lparr>title = ''Engineer'', company = ''Acme''\<rparr>"
    "filter_result resume_failed_job_result \<noteq> Some ''reject''"
    by (simp_all add: resume_failing_env_def happy_env_def resume_failed_job_result_def)
  have d: "customization_result contacts_only_job_result = None"
    "contact_result contacts_only_job_result = Some \<lparr>contacts = [''alice'', ''bob'']\<rparr>"
    "contacts \<lparr>contacts = [''alice'', ''bob'']\<rparr> \<noteq> []"
    "\<forall>c \<in> set (take 3 (contacts \<lparr>contacts = [''alice'', ''bob'']\<rparr>)).
         \<exists>e. generate_email happy_env c None = Returns (Some e)"
    by (simp_all add: contacts_only_job_result_def bare_job_result_def JobProcessingResult_init_def happy_env_def)
  from missing_prerequisite_fails_stage
    [of bare_job_result happy_env "[]" resume_failing_env "default_request [1, 2, 3]" 2
        resume_failed_job_result
        "[GetExistingFilterResult, LoadDefaultFilterCriteria, FilterJobsBatch ''default'',
          GetCustomizationForJob, CustomizeResumeForJob, FindContactsForCompany,
          GenerateEmail ''alice'' None, GenerateEmail ''bob'' None]"
        "\<lparr>title = ''Engineer'', company = ''Acme''\<rparr>"
        contacts_only_job_result "\<lparr>contacts = [''alice'', ''bob'']\<rparr>"]
    a c d resume_failing_run
  show ?thesis by (simp add: happy_env_def)
qed

end
